theory Spec2Isabelle
  imports Complex_Main "HOL-Library.Product_Lexorder" "HOL-Library.Multiset"
begin

section \<open>Python values the pipeline works with\<close>

text \<open>
  An exception is a value carrying the string that \<^verbatim>\<open>str(e)\<close> returns (the name of the
  exception where Python's wording depends on the operands). A call that may
  raise returns \<open>exn + 'a\<close>, with \<open>Inl\<close> for the raised exception. Floats are modelled
  as reals: the scores below are quotients of small multiples of 1/2 compared with the
  constants 0.3, 0.4 and 0.5, and every such comparison has the same outcome in IEEE
  double arithmetic.
\<close>

datatype exn = Exn string

fun str_of_exn :: "exn \<Rightarrow> string" where
  "str_of_exn (Exn msg) = msg"

text \<open>
  Sequencing: the first exception ends the block. \<open>collect\<close> evaluates the elements of a
  list display or the iterations of a loop in order.
\<close>

definition and_then :: "exn + 'a \<Rightarrow> ('a \<Rightarrow> exn + 'b) \<Rightarrow> exn + 'b" where
  "and_then m f = (case m of Inl e \<Rightarrow> Inl e | Inr v \<Rightarrow> f v)"

fun collect :: "(exn + 'a) list \<Rightarrow> exn + 'a list" where
  "collect [] = Inr []"
| "collect (m # ms) = and_then m (\<lambda>v. and_then (collect ms) (\<lambda>vs. Inr (v # vs)))"

text \<open>\<^verbatim>\<open>xs[i]\<close> on a list.\<close>

definition py_index :: "'a list \<Rightarrow> nat \<Rightarrow> exn + 'a" where
  "py_index xs i = (if i < length xs then Inr (xs ! i) else Inl (Exn ''list index out of range''))"

text \<open>
  The optional spaCy model: \<open>None\<close> when it is not loaded, otherwise a function from a
  text to the labels of the entities found in it, which may raise.
\<close>

type_synonym nlp = "(string \<Rightarrow> exn + string list) option"

subsection \<open>Text\<close>

text \<open>
  Text is a \<^typ>\<open>string\<close>. The primitives follow Python's \<^verbatim>\<open>str\<close> methods on ASCII
  text: \<^verbatim>\<open>split()\<close> cuts at runs of whitespace, \<^verbatim>\<open>strip()\<close> removes whitespace at
  both ends, \<^verbatim>\<open>lower()\<close> maps A-Z to a-z, \<^verbatim>\<open>a in b\<close> is substring search. The
  bullet U+2022, which the source tests for, is its UTF-8 byte sequence.
\<close>

definition is_space :: "char \<Rightarrow> bool" where
  "is_space c \<longleftrightarrow> c \<in> set [CHR '' '', CHR 0x09, CHR 0x0A, CHR 0x0B, CHR 0x0C, CHR 0x0D,
                              CHR 0x1C, CHR 0x1D, CHR 0x1E, CHR 0x1F]"

definition is_digit :: "char \<Rightarrow> bool" where
  "is_digit c \<longleftrightarrow> c \<in> set ''0123456789''"

definition is_upper :: "char \<Rightarrow> bool" where
  "is_upper c \<longleftrightarrow> c \<in> set ''ABCDEFGHIJKLMNOPQRSTUVWXYZ''"

definition is_lower :: "char \<Rightarrow> bool" where
  "is_lower c \<longleftrightarrow> c \<in> set ''abcdefghijklmnopqrstuvwxyz''"

definition is_word :: "char \<Rightarrow> bool" where
  "is_word c \<longleftrightarrow> is_lower c \<or> is_upper c \<or> is_digit c \<or> c = CHR ''_''"

definition lower_char :: "char \<Rightarrow> char" where
  "lower_char c =
     (case map_of (zip ''ABCDEFGHIJKLMNOPQRSTUVWXYZ'' ''abcdefghijklmnopqrstuvwxyz'') c of
        None \<Rightarrow> c | Some l \<Rightarrow> l)"

definition lower :: "string \<Rightarrow> string" where
  "lower s = map lower_char s"

definition bullet :: string where
  "bullet = [CHR 0xE2, CHR 0x80, CHR 0xA2]"

fun starts_with :: "string \<Rightarrow> string \<Rightarrow> bool" where
  "starts_with [] s = True"
| "starts_with (p # ps) [] = False"
| "starts_with (p # ps) (c # cs) = (p = c \<and> starts_with ps cs)"

fun contains :: "string \<Rightarrow> string \<Rightarrow> bool" where
  "contains kw [] = (kw = [])"
| "contains kw (c # cs) = (starts_with kw (c # cs) \<or> contains kw cs)"

fun split_ws_from :: "string \<Rightarrow> string \<Rightarrow> string list" where
  "split_ws_from cur [] = (if cur = [] then [] else [rev cur])"
| "split_ws_from cur (c # cs) =
     (if is_space c then (if cur = [] then split_ws_from [] cs else rev cur # split_ws_from [] cs)
      else split_ws_from (c # cur) cs)"

definition split_ws :: "string \<Rightarrow> string list" where
  "split_ws s = split_ws_from [] s"

fun split_char_from :: "char \<Rightarrow> string \<Rightarrow> string \<Rightarrow> string list" where
  "split_char_from sep cur [] = [rev cur]"
| "split_char_from sep cur (c # cs) =
     (if c = sep then rev cur # split_char_from sep [] cs else split_char_from sep (c # cur) cs)"

definition split_char :: "char \<Rightarrow> string \<Rightarrow> string list" where
  "split_char sep s = split_char_from sep [] s"

definition strip :: "string \<Rightarrow> string" where
  "strip s = rev (dropWhile is_space (rev (dropWhile is_space s)))"

fun join :: "string \<Rightarrow> string list \<Rightarrow> string" where
  "join sep [] = []"
| "join sep [x] = x"
| "join sep (x # y # ys) = x @ sep @ join sep (y # ys)"

fun string_of_nat :: "nat \<Rightarrow> string" where
  "string_of_nat n =
     (if n < 10 then [''0123456789'' ! n]
      else string_of_nat (n div 10) @ [''0123456789'' ! (n mod 10)])"

subsection \<open>Regular expressions\<close>

text \<open>
  The patterns of the source use literals, alternation, the classes \<^verbatim>\<open>\s\<close>, \<^verbatim>\<open>\d\<close> and
  bracketed sets, the postfix operators \<^verbatim>\<open>?\<close>, \<^verbatim>\<open>*\<close>, \<^verbatim>\<open>+\<close>, and the word boundary
  \<^verbatim>\<open>\b\<close>. A cursor is the character before the position (if any) and the rest of the
  text; \<open>matches_at r cur\<close> lists the cursors at which a match of \<open>r\<close> starting at
  \<open>cur\<close> can end. \<^verbatim>\<open>re.search\<close> succeeds when a match starts at some position.
\<close>

datatype cls = Space | Digit | OneOf string

fun in_cls :: "cls \<Rightarrow> char \<Rightarrow> bool" where
  "in_cls Space c = is_space c"
| "in_cls Digit c = is_digit c"
| "in_cls (OneOf cs) c = (c \<in> set cs)"

datatype rx = Lit string | Class cls | Seq rx rx | Alt rx rx | Opt rx | Star rx | WordB

type_synonym cursor = "char option \<times> string"

definition at_boundary :: "cursor \<Rightarrow> bool" where
  "at_boundary cur =
     ((case fst cur of None \<Rightarrow> False | Some p \<Rightarrow> is_word p)
      \<noteq> (case snd cur of [] \<Rightarrow> False | c # _ \<Rightarrow> is_word c))"

fun advance :: "string \<Rightarrow> cursor \<Rightarrow> cursor option" where
  "advance [] cur = Some cur"
| "advance (p # ps) (prev, []) = None"
| "advance (p # ps) (prev, c # cs) = (if p = c then advance ps (Some c, cs) else None)"

fun star_from :: "nat \<Rightarrow> (cursor \<Rightarrow> cursor list) \<Rightarrow> cursor \<Rightarrow> cursor list" where
  "star_from 0 f cur = [cur]"
| "star_from (Suc n) f cur =
     concat (map (star_from n f)
               (filter (\<lambda>nxt. length (snd nxt) < length (snd cur)) (f cur))) @ [cur]"

primrec matches_at :: "rx \<Rightarrow> cursor \<Rightarrow> cursor list" where
  "matches_at (Lit cs) = (\<lambda>cur. case advance cs cur of None \<Rightarrow> [] | Some nxt \<Rightarrow> [nxt])"
| "matches_at (Class k) = (\<lambda>cur. case snd cur of [] \<Rightarrow> []
                                   | c # cs \<Rightarrow> if in_cls k c then [(Some c, cs)] else [])"
| "matches_at (Seq a b) = (\<lambda>cur. concat (map (matches_at b) (matches_at a cur)))"
| "matches_at (Alt a b) = (\<lambda>cur. matches_at a cur @ matches_at b cur)"
| "matches_at (Opt a) = (\<lambda>cur. matches_at a cur @ [cur])"
| "matches_at (Star a) = (\<lambda>cur. star_from (length (snd cur)) (matches_at a) cur)"
| "matches_at WordB = (\<lambda>cur. if at_boundary cur then [cur] else [])"

fun search_from :: "rx \<Rightarrow> char option \<Rightarrow> string \<Rightarrow> bool" where
  "search_from r prev [] = (matches_at r (prev, []) \<noteq> [])"
| "search_from r prev (c # cs) =
     (matches_at r (prev, c # cs) \<noteq> [] \<or> search_from r (Some c) cs)"

definition re_search :: "rx \<Rightarrow> string \<Rightarrow> bool" where
  "re_search r s = search_from r None s"

definition any_of :: "string list \<Rightarrow> rx" where
  "any_of alts = foldr (\<lambda>a r. Alt (Lit a) r) (butlast alts) (Lit (last alts))"

definition seqs :: "rx list \<Rightarrow> rx" where
  "seqs rs = foldr Seq (butlast rs) (last rs)"

definition Plus :: "rx \<Rightarrow> rx" where
  "Plus r = Seq r (Star r)"

text \<open>\<^verbatim>\<open>\b(a|b|...)\b\<close>\<close>

definition word_alts :: "string list \<Rightarrow> rx" where
  "word_alts alts = seqs [WordB, any_of alts, WordB]"

section \<open>Layer 1: visual layout analyzer (visual_layout_analyzer.py)\<close>

text \<open>
  An EasyOCR detection is \<^verbatim>\<open>(bbox, text, confidence)\<close>. EasyOCR gives the bounding box as a
  list of four \<^verbatim>\<open>[x, y]\<close> points; the analyzer's comment takes it for a flat tuple of eight
  numbers. The box is modelled as a list whose entries are numbers or points, so that both
  shapes, and what the analyzer does on each, are in the model. \<^verbatim>\<open>int()\<close> truncates
  towards zero. The entries of a text block dictionary are the fields of \<open>text_block\<close>,
  with the prefix \<open>tb_\<close>.
\<close>

datatype coord = Num real | Point real real

record detection =
  det_bbox :: "coord list"
  det_text :: string
  det_conf :: real

record text_block =
  tb_text :: string
  tb_bbox :: "int \<times> int \<times> int \<times> int"
  tb_confidence :: real
  tb_x :: int
  tb_y :: int
  tb_width :: int
  tb_height :: int
  tb_is_heading :: bool
  tb_zone :: string
  tb_block_num :: nat
  tb_line_num :: nat

fun is_point :: "coord \<Rightarrow> bool" where
  "is_point (Point x y) = True"
| "is_point (Num r) = False"

fun number_of :: "coord \<Rightarrow> real" where
  "number_of (Num r) = r"
| "number_of (Point x y) = x"

text \<open>
  \<^verbatim>\<open>min\<close>, \<^verbatim>\<open>max\<close> and \<^verbatim>\<open>int\<close> on the four coordinates: with a point among them,
  either the comparison of a point with a number or \<^verbatim>\<open>int()\<close> of a point raises
  \<^verbatim>\<open>TypeError\<close>.
\<close>

definition as_numbers :: "coord list \<Rightarrow> exn + real list" where
  "as_numbers cs = (if list_ex is_point cs then Inl (Exn ''TypeError'') else Inr (map number_of cs))"

definition py_int :: "real \<Rightarrow> int" where
  "py_int r = (if 0 \<le> r then \<lfloor>r\<rfloor> else \<lceil>r\<rceil>)"

definition py_min :: "real list \<Rightarrow> real" where
  "py_min xs = foldl min (hd xs) (tl xs)"

definition py_max :: "real list \<Rightarrow> real" where
  "py_max xs = foldl max (hd xs) (tl xs)"

definition header_zone_threshold :: real where
  "header_zone_threshold = 0.15"

text \<open>The body of the loop of \<^verbatim>\<open>_extract_text_blocks\<close>, for one detection.\<close>

definition block_of_detection :: "int \<Rightarrow> nat \<times> detection \<Rightarrow> exn + text_block" where
  "block_of_detection img_height entry =
     (case entry of
        (idx, detection) \<Rightarrow>
          (let bbox = det_bbox detection in
           and_then (collect [py_index bbox 0, py_index bbox 2, py_index bbox 4, py_index bbox 6])
             (\<lambda>x_coords.
           and_then (collect [py_index bbox 1, py_index bbox 3, py_index bbox 5, py_index bbox 7])
             (\<lambda>y_coords.
           and_then (as_numbers x_coords) (\<lambda>xs.
           and_then (as_numbers y_coords) (\<lambda>ys.
             (let x = py_int (py_min xs);
                  y = py_int (py_min ys);
                  w = py_int (py_max xs - real_of_int x);
                  h = py_int (py_max ys - real_of_int y);
                  zone = (if real_of_int y < real_of_int img_height * header_zone_threshold
                          then ''header'' else ''body'')
              in Inr \<lparr>tb_text = det_text detection,
                      tb_bbox = (x, y, w, h),
                      tb_confidence = det_conf detection * 100,
                      tb_x = x, tb_y = y, tb_width = w, tb_height = h,
                      tb_is_heading = False,
                      tb_zone = zone,
                      tb_block_num = idx,
                      tb_line_num = idx\<rparr>)))))))"

text \<open>
  \<^verbatim>\<open>_extract_text_blocks\<close>; \<open>readtext\<close> is the outcome of the EasyOCR call on the image
  and \<open>warn\<close> the printing of the warning in the handler. A failure of the call gives the
  empty list once the warning is printed; the loop over the detections is outside the
  \<^verbatim>\<open>try\<close>, so what it raises leaves the function.
\<close>

definition extract_text_blocks ::
  "(exn \<Rightarrow> exn + unit) \<Rightarrow> exn + detection list \<Rightarrow> int \<Rightarrow> exn + text_block list" where
  "extract_text_blocks warn readtext img_height =
     (case readtext of
        Inl e \<Rightarrow> and_then (warn e) (\<lambda>_. Inr [])
      | Inr result \<Rightarrow>
          if result = [] then Inr []
          else collect (map (block_of_detection img_height) (enumerate 0 result)))"


record columns =
  col_count :: int
  col_boundaries :: "(int \<times> int) list"
  col_divider :: "int option"

definition block_center :: "'a text_block_scheme \<Rightarrow> real" where
  "block_center block = real_of_int (tb_x block) + real_of_int (tb_width block) / 2"

definition reading_key :: "nat \<times> 'a text_block_scheme \<Rightarrow> int \<times> int" where
  "reading_key entry = (tb_y (snd entry), tb_x (snd entry))"

text \<open>
  \<^verbatim>\<open>_create_reading_order\<close>. Python's sort is stable, as \<^const>\<open>sort_key\<close> is. A two-column
  dictionary without \<^verbatim>\<open>'divider'\<close> raises \<^verbatim>\<open>KeyError('divider')\<close>, whose string is the
  quoted key.
\<close>

definition create_reading_order :: "'a text_block_scheme list \<Rightarrow> columns \<Rightarrow> exn + nat list" where
  "create_reading_order text_blocks cols =
     (if text_blocks = [] then Inr []
      else if col_count cols = 1 then
        Inr (map fst (sort_key reading_key (enumerate 0 text_blocks)))
      else if col_count cols = 2 then
        (case col_divider cols of
           None \<Rightarrow> Inl (Exn ([CHR 0x27] @ ''divider'' @ [CHR 0x27]))
         | Some divider \<Rightarrow>
             (let left_blocks = filter (\<lambda>(idx, block). block_center block < real_of_int divider)
                                  (enumerate 0 text_blocks);
                  right_blocks = filter (\<lambda>(idx, block). \<not> block_center block < real_of_int divider)
                                  (enumerate 0 text_blocks)
              in Inr (map fst (sort_key reading_key left_blocks) @
                      map fst (sort_key reading_key right_blocks))))
      else Inr [0..<length text_blocks])"

definition left_of_divider :: "int \<Rightarrow> 'a text_block_scheme \<Rightarrow> bool" where
  "left_of_divider divider block \<longleftrightarrow> block_center block < real_of_int divider"

definition key_at :: "'a text_block_scheme list \<Rightarrow> nat \<Rightarrow> int \<times> int" where
  "key_at text_blocks i = (tb_y (text_blocks ! i), tb_x (text_blocks ! i))"


definition plain_block :: "int \<Rightarrow> int \<Rightarrow> int \<Rightarrow> int \<Rightarrow> text_block" where
  "plain_block x y w h =
     \<lparr>tb_text = ''text'', tb_bbox = (x, y, w, h), tb_confidence = 90,
      tb_x = x, tb_y = y, tb_width = w, tb_height = h, tb_is_heading = False,
      tb_zone = ''body'', tb_block_num = 0, tb_line_num = 0\<rparr>"

definition example_blocks :: "text_block list" where
  "example_blocks = [plain_block 400 10 100 20, plain_block 10 50 100 20, plain_block 10 20 100 20]"

definition two_columns :: columns where
  "two_columns = \<lparr>col_count = 2, col_boundaries = [(0, 300), (300, 600)], col_divider = Some 300\<rparr>"

definition one_column :: columns where
  "one_column = \<lparr>col_count = 1, col_boundaries = [(0, 600)], col_divider = None\<rparr>"

section \<open>Layer 3: section identifier (section_identifier.py)\<close>

text \<open>The canonical section types and their heading synonyms.\<close>

definition SECTION_MAPPINGS :: "(string \<times> string list) list" where
  "SECTION_MAPPINGS =
     [(''EMPLOYMENT'',
        [''employment'', ''employment history'', ''work experience'', ''professional experience'',
         ''work history'', ''career history'', ''experience'', ''professional background'',
         ''relevant employment'', ''career experience'', ''work'', ''jobs'', ''positions'',
         ''professional summary'', ''work record'']),
      (''EDUCATION'',
        [''education'', ''educational background'', ''academic background'',
         ''academic qualifications'', ''qualifications'', ''academics'',
         ''education background'', ''schooling'', ''degrees'', ''academic history'']),
      (''SKILLS'',
        [''skills'', ''technical skills'', ''core competencies'', ''key skills'',
         ''professional skills'', ''areas of expertise'', ''competencies'',
         ''skill set'', ''expertise'', ''technical competencies'', ''technologies'',
         ''technical proficiencies'', ''core skills'']),
      (''SUMMARY'',
        [''summary'', ''professional summary'', ''career summary'', ''profile'',
         ''professional profile'', ''career objective'', ''objective'',
         ''executive summary'', ''career overview'', ''about me'', ''about'', ''overview'']),
      (''PROJECTS'',
        [''projects'', ''key projects'', ''project experience'', ''notable projects'',
         ''portfolio'', ''selected projects'', ''project work'']),
      (''CERTIFICATIONS'',
        [''certifications'', ''certificates'', ''professional certifications'',
         ''licenses'', ''credentials'', ''certified'', ''licensing'', ''professional licenses'']),
      (''ACHIEVEMENTS'',
        [''achievements'', ''awards'', ''honors'', ''recognition'', ''accomplishments'',
         ''awards and honors'', ''distinctions'']),
      (''LANGUAGES'',
        [''languages'', ''language skills'', ''language proficiency'', ''linguistic skills''])]"

text \<open>
  \<^verbatim>\<open>re.split(r'[,\<bullet>|\n]', content)\<close>: the text is cut at every separator; a separator may
  be several bytes long.
\<close>

fun split_seps_from :: "string list \<Rightarrow> nat \<Rightarrow> string \<Rightarrow> string \<Rightarrow> string list" where
  "split_seps_from seps skip cur [] = [rev cur]"
| "split_seps_from seps skip cur (c # cs) =
     (if skip > 0 then split_seps_from seps (skip - 1) cur cs
      else (case find (\<lambda>sep. starts_with sep (c # cs)) seps of
              Some sep \<Rightarrow> rev cur # split_seps_from seps (length sep - 1) [] cs
            | None \<Rightarrow> split_seps_from seps 0 (c # cur) cs))"

definition split_seps :: "string list \<Rightarrow> string \<Rightarrow> string list" where
  "split_seps seps s = split_seps_from seps 0 [] s"

record class_scores =
  sc_education :: int
  sc_employment :: int
  sc_skills :: int
  sc_summary :: int
  sc_projects :: int

definition count_patterns :: "rx list \<Rightarrow> string \<Rightarrow> int" where
  "count_patterns ps s = int (length (filter (\<lambda>p. re_search p s) ps))"

definition count_keywords :: "string list \<Rightarrow> string \<Rightarrow> int" where
  "count_keywords kws s = int (length (filter (\<lambda>kw. contains kw s) kws))"

text \<open>
  The patterns of the classifier that are not of the form \<^verbatim>\<open>\b(a|b|...)\b\<close>:
  \<^verbatim>\<open>\bgpa\s*[:\-]?\s*\d\<close> and \<^verbatim>\<open>\b(major|minor)\s*[:\-]\<close> for education;
  \<^verbatim>\<open>\b(position|title|role)\s*[:\-]\<close>, \<^verbatim>\<open>\b(responsibilities|duties)\s*[:\-]\<close>,
  \<^verbatim>\<open>\d+\s*(years?|months?)\s+(of\s+)?(work\s+)?experience\<close> and
  \<^verbatim>\<open>\b(achieved|increased|improved|reduced)\s+\d+%\<close> for employment.
\<close>

definition strong_education_patterns :: "rx list" where
  "strong_education_patterns =
     [word_alts [''bachelor'', ''master'', ''phd'', ''doctorate'', ''b.s.'', ''m.s.'', ''b.a.'',
                 ''m.a.'', ''b.tech'', ''m.tech''],
      word_alts [''university'', ''college''],
      seqs [WordB, Lit ''gpa'', Star (Class Space), Opt (Class (OneOf '':-'')),
            Star (Class Space), Class Digit],
      word_alts [''cum laude'', ''magna cum laude'', ''summa cum laude''],
      word_alts [''thesis'', ''dissertation''],
      seqs [WordB, any_of [''major'', ''minor''], Star (Class Space), Class (OneOf '':-'')],
      word_alts [''academic'']]"

definition education_keywords :: "string list" where
  "education_keywords =
     [''graduated'', ''graduation'', ''degree'', ''diploma'', ''school'', ''institute'',
      ''coursework'', ''honors'', ''academic'', ''student'', ''education'']"

definition strong_employment_patterns :: "rx list" where
  "strong_employment_patterns =
     [word_alts [''company'', ''corporation'', ''inc.'', ''ltd.'', ''llc''],
      seqs [WordB, any_of [''position'', ''title'', ''role''], Star (Class Space),
            Class (OneOf '':-'')],
      seqs [WordB, any_of [''responsibilities'', ''duties''], Star (Class Space),
            Class (OneOf '':-'')],
      seqs [Plus (Class Digit), Star (Class Space),
            Alt (Seq (Lit ''year'') (Opt (Lit ''s''))) (Seq (Lit ''month'') (Opt (Lit ''s''))),
            Plus (Class Space), Opt (Seq (Lit ''of'') (Plus (Class Space))),
            Opt (Seq (Lit ''work'') (Plus (Class Space))), Lit ''experience''],
      seqs [WordB, any_of [''achieved'', ''increased'', ''improved'', ''reduced''],
            Plus (Class Space), Plus (Class Digit), Lit ''%''],
      word_alts [''promoted'', ''hired'', ''recruited''],
      word_alts [''employee'', ''employer'', ''worked at'']]"

definition employment_verbs :: "string list" where
  "employment_verbs =
     [''managed team'', ''led team'', ''supervised'', ''coordinated team'',
      ''responsibilities included'', ''duties included'', ''reported to'',
      ''collaborated with'', ''partnered with'']"

definition tech_keywords :: "string list" where
  "tech_keywords =
     [''python'', ''java'', ''javascript'', ''sql'', ''aws'', ''azure'', ''docker'',
      ''react'', ''angular'', ''node'', ''api'', ''database'', ''cloud'', ''agile'',
      ''c++'', ''c#'', ''ruby'', ''php'', ''swift'', ''kotlin'', ''typescript'']"

definition summary_keywords :: "string list" where
  "summary_keywords =
     [''years of experience'', ''professional'', ''expertise in'', ''specialized in'',
      ''seeking'', ''passionate about'', ''dedicated'', ''experienced'', ''background in'']"

definition project_keywords :: "string list" where
  "project_keywords =
     [''project'', ''built application'', ''developed application'', ''created tool'',
      ''implemented system'']"

text \<open>Priority 1: strong education indicators, weight 5, and education keywords, weight 2.\<close>

definition score_education :: "string \<Rightarrow> class_scores \<Rightarrow> class_scores" where
  "score_education content_lower scores =
     (let education_matches = count_patterns strong_education_patterns content_lower;
          scores1 = scores\<lparr>sc_education := sc_education scores + education_matches * 5\<rparr>;
          education_kw_matches = count_keywords education_keywords content_lower
      in scores1\<lparr>sc_education := sc_education scores1 + education_kw_matches * 2\<rparr>)"

text \<open>
  Priority 2: what the employment indicators of a text are worth, and the branch that
  counts them, guarded by the education score.
\<close>

definition employment_indicators :: "string \<Rightarrow> int" where
  "employment_indicators content_lower =
     count_patterns strong_employment_patterns content_lower * 4 +
     count_keywords employment_verbs content_lower * 3"

definition score_employment :: "string \<Rightarrow> class_scores \<Rightarrow> class_scores" where
  "score_employment content_lower scores =
     (if sc_education scores < 5 then
        (let employment_matches = count_patterns strong_employment_patterns content_lower;
             scores1 = scores\<lparr>sc_employment := sc_employment scores + employment_matches * 4\<rparr>;
             employment_verb_matches = count_keywords employment_verbs content_lower
         in scores1\<lparr>sc_employment := sc_employment scores1 + employment_verb_matches * 3\<rparr>)
      else scores)"

text \<open>Priority 3: short list items, and technology keywords.\<close>

definition score_skills :: "string \<Rightarrow> string \<Rightarrow> class_scores \<Rightarrow> class_scores" where
  "score_skills content content_lower scores =
     (if contains '','' content \<or> contains bullet content \<or> contains ''|'' content then
        (let words = split_seps ['','', bullet, ''|'', [CHR 0x0A]] content;
             lengths = map (\<lambda>w. length (split_ws w)) (filter (\<lambda>w. strip w \<noteq> []) words)
         in if lengths \<noteq> [] \<and> real (sum_list lengths) / real (length lengths) < 4 then
              scores\<lparr>sc_skills := sc_skills scores + 5
                                    + count_keywords tech_keywords content_lower * 2\<rparr>
            else scores)
      else scores)"

text \<open>Priority 4: summary keywords, and more than two sentences.\<close>

definition score_summary :: "string \<Rightarrow> string \<Rightarrow> class_scores \<Rightarrow> class_scores" where
  "score_summary content content_lower scores =
     (let scores1 = scores\<lparr>sc_summary := sc_summary scores
                                 + count_keywords summary_keywords content_lower * 3\<rparr>
      in if \<not> starts_with bullet content \<and> \<not> starts_with ''-'' content
            \<and> length (split_char CHR ''.'' content) > 2
         then scores1\<lparr>sc_summary := sc_summary scores1 + 2\<rparr>
         else scores1)"

text \<open>Priority 5: project keywords.\<close>

definition score_projects :: "string \<Rightarrow> class_scores \<Rightarrow> class_scores" where
  "score_projects content_lower scores =
     scores\<lparr>sc_projects := sc_projects scores + count_keywords project_keywords content_lower * 3\<rparr>"

text \<open>Named entities, when spaCy is loaded; its failure is swallowed.\<close>

definition score_entities :: "nlp \<Rightarrow> string \<Rightarrow> string \<Rightarrow> class_scores \<Rightarrow> class_scores" where
  "score_entities nlp content content_lower scores =
     (case nlp of
        None \<Rightarrow> scores
      | Some ents \<Rightarrow>
          (case ents (take 500 content) of
             Inl e \<Rightarrow> scores
           | Inr labels \<Rightarrow>
               (let org_count = count_list labels ''ORG'';
                    date_count = count_list labels ''DATE'';
                    has_edu_institution =
                      list_ex (\<lambda>inst. contains inst content_lower)
                        [''university'', ''college'', ''institute'', ''school'']
                in if has_edu_institution \<and> date_count \<ge> 1
                   then scores\<lparr>sc_education := sc_education scores + 5\<rparr>
                   else if org_count \<ge> 1 \<and> date_count \<ge> 1 \<and> \<not> has_edu_institution
                   then scores\<lparr>sc_employment := sc_employment scores + 3\<rparr>
                   else scores)))"

text \<open>\<^verbatim>\<open>max(scores, key=scores.get)\<close>: the first key, in insertion order, with the highest score.\<close>

definition score_items :: "class_scores \<Rightarrow> (string \<times> int) list" where
  "score_items scores =
     [(''EDUCATION'', sc_education scores), (''EMPLOYMENT'', sc_employment scores),
      (''SKILLS'', sc_skills scores), (''SUMMARY'', sc_summary scores),
      (''PROJECTS'', sc_projects scores)]"

definition first_max :: "(string \<times> int) list \<Rightarrow> string \<times> int" where
  "first_max items = foldl (\<lambda>best item. if snd item > snd best then item else best)
                       (hd items) (tl items)"

definition classify_content_by_analysis :: "nlp \<Rightarrow> string \<Rightarrow> string option" where
  "classify_content_by_analysis nlp content =
     (let content_lower = lower content;
          scores0 = \<lparr>sc_education = 0, sc_employment = 0, sc_skills = 0, sc_summary = 0,
                     sc_projects = 0\<rparr>;
          scores1 = score_education content_lower scores0;
          scores2 = score_employment content_lower scores1
      in if sc_education scores2 \<ge> 5 then Some ''EDUCATION''
         else if sc_employment scores2 \<ge> 8 then Some ''EMPLOYMENT''
         else
           (let scores3 = score_skills content content_lower scores2;
                scores4 = score_summary content content_lower scores3;
                scores5 = score_projects content_lower scores4;
                scores6 = score_entities nlp content content_lower scores5;
                best = first_max (score_items scores6)
            in if snd best > 0 then Some (fst best) else None))"

definition education_points :: "string \<Rightarrow> int" where
  "education_points content =
     sc_education (score_education (lower content)
        \<lparr>sc_education = 0, sc_employment = 0, sc_skills = 0, sc_summary = 0, sc_projects = 0\<rparr>)"

definition employment_counted :: "string \<Rightarrow> int" where
  "employment_counted content =
     sc_employment (score_employment (lower content) (score_education (lower content)
        \<lparr>sc_education = 0, sc_employment = 0, sc_skills = 0, sc_summary = 0, sc_projects = 0\<rparr>))"

section \<open>Layer 4: content validator (content_validator.py)\<close>

record signature =
  required_patterns :: "rx list"
  positive_keywords :: "string list"
  negative_keywords :: "string list"
  entity_types :: "string list"
  min_entities :: "(string \<times> nat) list"
  strong_negative_weight :: "real option"
  format :: "string option"

definition CONTENT_SIGNATURES :: "(string \<times> signature) list" where
  "CONTENT_SIGNATURES =
   [(''EMPLOYMENT'', \<lparr>
       required_patterns =
         [word_alts [''managed'', ''developed'', ''led'', ''created'', ''implemented'',
                     ''designed'', ''built'', ''responsible''],
          word_alts [''company'', ''corporation'', ''team'', ''project'', ''product'']],
       positive_keywords =
         [''managed'', ''developed'', ''led'', ''created'', ''implemented'', ''designed'',
          ''built'', ''responsible'', ''achieved'', ''increased'', ''improved'', ''reduced'',
          ''collaborated'', ''coordinated'', ''delivered'', ''established'', ''maintained''],
       negative_keywords =
         [''bachelor'', ''master'', ''phd'', ''degree'', ''university'', ''college'',
          ''gpa'', ''graduated'', ''coursework''],
       entity_types = [''ORG'', ''DATE''],
       min_entities = [(''ORG'', 1)],
       strong_negative_weight = None,
       format = None \<rparr>),
    (''EDUCATION'', \<lparr>
       required_patterns =
         [word_alts [''bachelor'', ''master'', ''phd'', ''b.s.'', ''m.s.'', ''b.a.'', ''m.a.'',
                     ''b.tech'', ''m.tech'', ''degree''],
          word_alts [''university'', ''college'', ''institute'', ''school'']],
       positive_keywords =
         [''bachelor'', ''master'', ''phd'', ''doctorate'', ''degree'', ''university'', ''college'',
          ''graduated'', ''gpa'', ''honors'', ''cum laude'', ''summa'', ''magna'', ''diploma'',
          ''certificate'', ''coursework'', ''thesis'', ''dissertation'', ''academic'', ''student'',
          ''scholar'', ''major'', ''minor'', ''concentration'', ''education'', ''school'',
          ''institute''],
       negative_keywords =
         [''managed team'', ''developed product'', ''implemented solution'', ''led project'',
          ''company'', ''corporation'', ''responsibilities'', ''duties'', ''position'', ''role'',
          ''achieved'', ''increased revenue'', ''improved performance'', ''reduced cost'',
          ''collaborated with'', ''reported to'', ''supervised''],
       entity_types = [''ORG'', ''DATE''],
       min_entities = [],
       strong_negative_weight = Some 5.0,
       format = None \<rparr>),
    (''SKILLS'', \<lparr>
       required_patterns = [],
       positive_keywords =
         [''python'', ''java'', ''javascript'', ''c++'', ''sql'', ''html'', ''css'',
          ''react'', ''angular'', ''node'', ''aws'', ''azure'', ''docker'', ''kubernetes'',
          ''git'', ''linux'', ''windows'', ''api'', ''rest'', ''graphql'', ''mongodb'',
          ''postgresql'', ''mysql'', ''agile'', ''scrum'', ''ci/cd''],
       negative_keywords =
         [''bachelor'', ''master'', ''university'', ''graduated'', ''gpa'',
          ''managed'', ''developed'', ''led'', ''responsibilities''],
       entity_types = [],
       min_entities = [],
       strong_negative_weight = None,
       format = Some ''list'' \<rparr>),
    (''SUMMARY'', \<lparr>
       required_patterns = [],
       positive_keywords =
         [''years of experience'', ''professional'', ''expertise'', ''specialized'',
          ''passionate'', ''dedicated'', ''seeking'', ''objective'', ''goal''],
       negative_keywords = [],
       entity_types = [],
       min_entities = [],
       strong_negative_weight = None,
       format = Some ''paragraph'' \<rparr>),
    (''PROJECTS'', \<lparr>
       required_patterns =
         [word_alts [''project'', ''developed'', ''built'', ''created'', ''implemented'']],
       positive_keywords =
         [''project'', ''developed'', ''built'', ''created'', ''implemented'',
          ''application'', ''website'', ''system'', ''tool'', ''platform''],
       negative_keywords = [''bachelor'', ''master'', ''university'', ''gpa''],
       entity_types = [],
       min_entities = [],
       strong_negative_weight = None,
       format = None \<rparr>),
    (''CERTIFICATIONS'', \<lparr>
       required_patterns =
         [word_alts [''certified'', ''certification'', ''license'', ''credential'']],
       positive_keywords =
         [''certified'', ''certification'', ''license'', ''credential'',
          ''aws'', ''microsoft'', ''cisco'', ''google'', ''oracle''],
       negative_keywords = [],
       entity_types = [''ORG'', ''DATE''],
       min_entities = [],
       strong_negative_weight = None,
       format = None \<rparr>)]"

record tally =
  score :: real
  max_score :: real
  reasons :: "string list"

text \<open>Check 1: required patterns.\<close>

definition check_required :: "signature \<Rightarrow> string \<Rightarrow> tally \<Rightarrow> tally" where
  "check_required sg text_lower t =
     (if required_patterns sg \<noteq> [] then
        (let t1 = t\<lparr>max_score := max_score t + 2.0\<rparr> in
         if list_ex (\<lambda>pattern. re_search pattern text_lower) (required_patterns sg)
         then t1\<lparr>score := score t1 + 2.0, reasons := reasons t1 @ [''has required pattern'']\<rparr>
         else t1)
      else t)"

text \<open>Check 2: positive keywords.\<close>

definition check_positive :: "signature \<Rightarrow> string \<Rightarrow> tally \<Rightarrow> tally" where
  "check_positive sg text_lower t =
     (if positive_keywords sg \<noteq> [] then
        (let t1 = t\<lparr>max_score := max_score t + 3.0\<rparr>;
             matches = length (filter (\<lambda>kw. contains kw text_lower) (positive_keywords sg)) in
         if matches > 0
         then t1\<lparr>score := score t1 + min 3.0 (real matches / 2),
                 reasons := reasons t1 @ [string_of_nat matches @ '' positive keywords'']\<rparr>
         else t1)
      else t)"

text \<open>Check 3: negative keywords, with the signature's penalty weight (default 1.0).\<close>

definition check_negative :: "signature \<Rightarrow> string \<Rightarrow> tally \<Rightarrow> tally" where
  "check_negative sg text_lower t =
     (let weight = (case strong_negative_weight sg of None \<Rightarrow> 1.0 | Some w \<Rightarrow> w) in
      if negative_keywords sg \<noteq> [] then
        (let t1 = t\<lparr>max_score := max_score t + 2.0 * weight\<rparr>;
             neg_matches = length (filter (\<lambda>kw. contains kw text_lower) (negative_keywords sg)) in
         if neg_matches = 0
         then t1\<lparr>score := score t1 + 2.0 * weight\<rparr>
         else t1\<lparr>score := score t1 - real neg_matches * weight,
                 reasons := reasons t1 @
                   [string_of_nat neg_matches @ '' NEGATIVE keywords found (major issue)'']\<rparr>)
      else t)"

text \<open>Check 4: list or paragraph format.\<close>

definition check_format :: "signature \<Rightarrow> string \<Rightarrow> tally \<Rightarrow> tally" where
  "check_format sg txt t =
     (case format sg of
        None \<Rightarrow> t
      | Some expected_format \<Rightarrow>
          (let t1 = t\<lparr>max_score := max_score t + 1.0\<rparr>;
               is_list = (contains '','' txt \<or> contains bullet txt \<or> contains ''|'' txt);
               is_paragraph = (length (split_char CHR ''.'' txt) > 2) in
           if expected_format = ''list'' \<and> is_list
           then t1\<lparr>score := score t1 + 1.0, reasons := reasons t1 @ [''list format'']\<rparr>
           else if expected_format = ''paragraph'' \<and> is_paragraph
           then t1\<lparr>score := score t1 + 1.0, reasons := reasons t1 @ [''paragraph format'']\<rparr>
           else t1))"

text \<open>Check 5: named entities, only when spaCy is loaded. A failure of spaCy is swallowed.\<close>

definition check_entities :: "nlp \<Rightarrow> signature \<Rightarrow> string \<Rightarrow> tally \<Rightarrow> tally" where
  "check_entities nlp sg txt t =
     (case nlp of
        None \<Rightarrow> t
      | Some ents \<Rightarrow>
          if entity_types sg \<noteq> [] then
            (let t1 = t\<lparr>max_score := max_score t + 2.0\<rparr> in
             case ents (take 500 txt) of
               Inl e \<Rightarrow> t1
             | Inr labels \<Rightarrow>
                 if list_all (\<lambda>(ent_type, min_count). count_list labels ent_type \<ge> min_count)
                      (min_entities sg)
                 then t1\<lparr>score := score t1 + 2.0,
                         reasons := reasons t1 @ [''has required entities'']\<rparr>
                 else t1)
          else t)"

definition validate_content :: "nlp \<Rightarrow> string \<Rightarrow> string \<Rightarrow> bool \<times> real \<times> string" where
  "validate_content nlp txt section_type =
     (case map_of CONTENT_SIGNATURES section_type of
        None \<Rightarrow> (True, 1.0, ''Unknown section type'')
      | Some sg \<Rightarrow>
          (let text_lower = lower txt;
               t = check_entities nlp sg txt
                     (check_format sg txt
                       (check_negative sg text_lower
                         (check_positive sg text_lower
                           (check_required sg text_lower
                              \<lparr>score = 0.0, max_score = 0.0, reasons = []\<rparr>))));
               confidence = (if max_score t > 0 then score t / max_score t else 1.0);
               is_valid = (confidence \<ge> 0.4);
               reason = (if reasons t \<noteq> [] then join '', '' (reasons t)
                         else ''no matching indicators'')
           in (is_valid, confidence, reason)))"

text \<open>
  \<^verbatim>\<open>_find_correct_section\<close>: the loop over the signatures keeps the first type with the
  strictly highest confidence, starting from \<open>(None, 0.0)\<close>.
\<close>

definition find_step :: "nlp \<Rightarrow> string \<Rightarrow> string option \<times> real \<Rightarrow> string \<Rightarrow> string option \<times> real" where
  "find_step nlp txt best section_type =
     (case validate_content nlp txt section_type of
        (is_valid, confidence, _) \<Rightarrow>
          if confidence > snd best then (Some section_type, confidence) else best)"

definition find_correct_section :: "nlp \<Rightarrow> string \<Rightarrow> string option" where
  "find_correct_section nlp txt =
     (case foldl (find_step nlp txt) (None, 0.0) (map fst CONTENT_SIGNATURES) of
        (best_section, best_confidence) \<Rightarrow>
          if best_confidence \<ge> 0.5 then best_section else None)"

text \<open>
  A content block is a dictionary; the validator reads its \<^verbatim>\<open>'text'\<close> and may set its
  \<^verbatim>\<open>'validation_warning'\<close>. All other entries are carried along in the record's extension.
  The sections are a dictionary in insertion order, an association list with distinct keys.
\<close>

record block =
  block_text :: string
  validation_warning :: "string option"

record move =
  move_from :: string
  move_to :: string
  move_text :: string

record removal =
  removal_section :: string
  removal_text :: string
  removal_confidence :: real

type_synonym 'a sections = "(string \<times> 'a block_scheme list) list"

text \<open>\<^verbatim>\<open>if k not in d: d[k] = []\<close> and \<^verbatim>\<open>d[k].append(b)\<close>.\<close>

definition ensure_key :: "'a sections \<Rightarrow> string \<Rightarrow> 'a sections" where
  "ensure_key d k = (if map_of d k = None then d @ [(k, [])] else d)"

definition append_to :: "'a sections \<Rightarrow> string \<Rightarrow> 'a block_scheme \<Rightarrow> 'a sections" where
  "append_to d k b = map (\<lambda>(k', bs). if k' = k then (k', bs @ [b]) else (k', bs)) d"

record 'a vstate =
  validated_sections :: "'a sections"
  moved_content :: "move list"
  removed_content :: "removal list"

text \<open>The body of the inner loop of \<^verbatim>\<open>validate_sections\<close>, for one block.\<close>

definition validate_block :: "nlp \<Rightarrow> string \<Rightarrow> 'a vstate \<Rightarrow> 'a block_scheme \<Rightarrow> 'a vstate" where
  "validate_block nlp section_name st b =
     (let txt = block_text b in
      if strip txt = [] then st
      else
        (case validate_content nlp txt section_name of
           (is_valid, confidence, reason) \<Rightarrow>
             if is_valid \<and> confidence \<ge> 0.5
             then st\<lparr>validated_sections := append_to (validated_sections st) section_name b\<rparr>
             else
               (let correct_section = find_correct_section nlp txt;
                    unplaced =
                      (if confidence < 0.3
                       then st\<lparr>removed_content := removed_content st @
                              [\<lparr>removal_section = section_name, removal_text = take 60 txt,
                                removal_confidence = confidence\<rparr>]\<rparr>
                       else st\<lparr>validated_sections :=
                              append_to (validated_sections st) section_name
                                (b\<lparr>validation_warning := Some reason\<rparr>)\<rparr>)
                in case correct_section of
                     None \<Rightarrow> unplaced
                   | Some target \<Rightarrow>
                       if target \<noteq> [] \<and> target \<noteq> section_name
                       then st\<lparr>validated_sections :=
                                 append_to (ensure_key (validated_sections st) target) target b,
                               moved_content := moved_content st @
                                 [\<lparr>move_from = section_name, move_to = target,
                                   move_text = take 60 txt\<rparr>]\<rparr>
                       else unplaced)))"

definition validate_section :: "nlp \<Rightarrow> 'a vstate \<Rightarrow> string \<times> 'a block_scheme list \<Rightarrow> 'a vstate" where
  "validate_section nlp st entry =
     (case entry of
        (section_name, content_blocks) \<Rightarrow>
          foldl (validate_block nlp section_name)
            (st\<lparr>validated_sections := ensure_key (validated_sections st) section_name\<rparr>)
            content_blocks)"

definition validate_sections_run :: "nlp \<Rightarrow> 'a sections \<Rightarrow> 'a vstate" where
  "validate_sections_run nlp sections =
     foldl (validate_section nlp)
       \<lparr>validated_sections = [], moved_content = [], removed_content = []\<rparr> sections"

definition validate_sections :: "nlp \<Rightarrow> 'a sections \<Rightarrow> 'a sections" where
  "validate_sections nlp sections = validated_sections (validate_sections_run nlp sections)"

subsection \<open>Notions used to state the properties of the validator\<close>

text \<open>The confidence and the reason that \<^verbatim>\<open>_validate_content\<close> returns.\<close>

definition confidence_in :: "nlp \<Rightarrow> string \<Rightarrow> string \<Rightarrow> real" where
  "confidence_in nlp txt section_type = fst (snd (validate_content nlp txt section_type))"

definition reason_in :: "nlp \<Rightarrow> string \<Rightarrow> string \<Rightarrow> string" where
  "reason_in nlp txt section_type = snd (snd (validate_content nlp txt section_type))"

definition signature_keys :: "string list" where
  "signature_keys = map fst CONTENT_SIGNATURES"

text \<open>
  A block is stable in a section when a pass leaves it there as it is: it is not blank and
  either scores at least 0.5, or scores at least 0.3, has no better section and already
  carries the warning the pass would set.
\<close>

definition all_blocks :: "'a sections \<Rightarrow> (string \<Rightarrow> 'a block_scheme \<Rightarrow> bool) \<Rightarrow> bool" where
  "all_blocks d P = list_all (\<lambda>(S, bs). list_all (P S) bs) d"

definition stable :: "nlp \<Rightarrow> string \<Rightarrow> 'a block_scheme \<Rightarrow> bool" where
  "stable nlp S b \<longleftrightarrow>
     strip (block_text b) \<noteq> [] \<and>
     (1 / 2 \<le> confidence_in nlp (block_text b) S \<or>
      (3 / 10 \<le> confidence_in nlp (block_text b) S \<and>
       find_correct_section nlp (block_text b) = None \<and>
       validation_warning b = Some (reason_in nlp (block_text b) S)))"

text \<open>Invariant of the loop: keys stay distinct and every filed block is stable.\<close>

definition well_filed :: "nlp \<Rightarrow> 'a sections \<Rightarrow> bool" where
  "well_filed nlp d \<longleftrightarrow> distinct (map fst d) \<and> all_blocks d (stable nlp)"

text \<open>The blocks filed under a key, and the best-scoring type of a text.\<close>

definition blocks_of :: "'a sections \<Rightarrow> string \<Rightarrow> 'a block_scheme list" where
  "blocks_of d S = concat (map snd (filter (\<lambda>e. fst e = S) d))"

definition best_scoring :: "nlp \<Rightarrow> string \<Rightarrow> string \<Rightarrow> bool" where
  "best_scoring nlp txt T \<longleftrightarrow>
     T \<in> set signature_keys \<and>
     list_all (\<lambda>U. confidence_in nlp txt U \<le> confidence_in nlp txt T) signature_keys \<and>
     list_all (\<lambda>U. confidence_in nlp txt U < confidence_in nlp txt T)
       (takeWhile (\<lambda>U. U \<noteq> T) signature_keys)"

text \<open>What has been filed, moved or removed stays so through the rest of the pass.\<close>

definition extends :: "'a vstate \<Rightarrow> 'a vstate \<Rightarrow> bool" where
  "extends st st' \<longleftrightarrow>
     set (map fst (validated_sections st)) \<subseteq> set (map fst (validated_sections st')) \<and>
     (\<forall>S. set (blocks_of (validated_sections st) S) \<subseteq> set (blocks_of (validated_sections st') S)) \<and>
     set (moved_content st) \<subseteq> set (moved_content st') \<and>
     set (removed_content st) \<subseteq> set (removed_content st')"

text \<open>
  Accounting for a pass: the source section and recorded text of a move, the same for every
  block of the input, and the texts of all filed blocks.
\<close>

definition move_source :: "move \<Rightarrow> string \<times> string" where
  "move_source m = (move_from m, move_text m)"

definition occurrences :: "'a sections \<Rightarrow> (string \<times> string) list" where
  "occurrences s = concat (map (\<lambda>(S, bs). map (\<lambda>b. (S, take 60 (block_text b))) bs) s)"

definition all_texts :: "'a sections \<Rightarrow> string list" where
  "all_texts d = map block_text (concat (map snd d))"

definition accounted :: "'a vstate \<Rightarrow> string multiset \<Rightarrow> (string \<times> string) multiset \<Rightarrow> bool" where
  "accounted st texts sources \<longleftrightarrow>
     distinct (map fst (validated_sections st)) \<and>
     mset (all_texts (validated_sections st)) \<subseteq># texts \<and>
     mset (map move_source (moved_content st)) \<subseteq># sources \<and>
     list_all (\<lambda>m. move_to m \<noteq> move_from m) (moved_content st)"

text \<open>A block that mixes employment verbs with a list of technologies.\<close>

definition example_block :: block where
  "example_block =
     \<lparr>block_text = ''Improved and maintained Python, Java, SQL'', validation_warning = None\<rparr>"

section \<open>Layer 7: quality scores (post_processor.py)\<close>

text \<open>
  The data handed to \<^verbatim>\<open>_calculate_quality_scores\<close>: the cleaned candidate information and
  sections, each a dictionary of strings that may be absent. The scores are reals; the
  largest overall score that can arise is 0.9275, so that the rounding of floats does not
  touch the bounds proved below.
\<close>

record cleaned_data =
  candidate_info :: "(string \<rightharpoonup> string) option"
  sections :: "(string \<rightharpoonup> string) option"

record quality_scores =
  name_score :: real
  contact_score :: real
  employment_score :: real
  education_score :: real
  skills_score :: real
  summary_score :: real
  overall_score :: real

text \<open>\<^verbatim>\<open>d.get(k, '')\<close> on a dictionary of strings, and \<^verbatim>\<open>data.get(k, {})\<close>.\<close>

definition get_str :: "(string \<rightharpoonup> string) \<Rightarrow> string \<Rightarrow> string" where
  "get_str m k = (case m k of None \<Rightarrow> [] | Some v \<Rightarrow> v)"

definition get_dict :: "(string \<rightharpoonup> string) option \<Rightarrow> (string \<rightharpoonup> string)" where
  "get_dict d = (case d of None \<Rightarrow> Map.empty | Some m \<Rightarrow> m)"

definition score_name :: "string \<Rightarrow> real" where
  "score_name name =
     (if name \<noteq> [] then
        (let word_count = length (split_ws name) in
         if 2 \<le> word_count \<and> word_count \<le> 4 then 0.95
         else if word_count = 1 then 0.5
         else 0.7)
      else 0.0)"

definition score_contact :: "(string \<rightharpoonup> string) \<Rightarrow> real" where
  "score_contact info =
     (let contact_count = length (filter (\<lambda>field. get_str info field \<noteq> [])
                                    [''email'', ''phone'', ''linkedin''])
      in min 1.0 (real contact_count / 2))"

definition score_section :: "string \<Rightarrow> real" where
  "score_section content =
     (if content \<noteq> [] then
        (let word_count = length (split_ws content) in
         if word_count > 20 then 0.9
         else if word_count > 5 then 0.7
         else 0.5)
      else 0.0)"

definition weights :: "((quality_scores \<Rightarrow> real) \<times> real) list" where
  "weights = [(name_score, 0.25), (contact_score, 0.15), (employment_score, 0.25),
              (education_score, 0.20), (skills_score, 0.10), (summary_score, 0.05)]"

definition calculate_quality_scores :: "cleaned_data \<Rightarrow> quality_scores" where
  "calculate_quality_scores data =
     (let info = get_dict (candidate_info data);
          secs = get_dict (sections data);
          scores = \<lparr> name_score = score_name (get_str info ''name''),
                     contact_score = score_contact info,
                     employment_score = score_section (get_str secs ''EMPLOYMENT''),
                     education_score = score_section (get_str secs ''EDUCATION''),
                     skills_score = score_section (get_str secs ''SKILLS''),
                     summary_score = score_section (get_str secs ''SUMMARY''),
                     overall_score = 0 \<rparr>
      in scores \<lparr> overall_score := (\<Sum>(key, weight) \<leftarrow> weights. key scores * weight) \<rparr>)"

section \<open>Orchestrator (advanced_resume_ocr.py, docx_image_extractor.py)\<close>

text \<open>The result dictionaries, in insertion order.\<close>

datatype pyval =
    PNone
  | PBool bool
  | PFloat real
  | PStr string
  | PList "pyval list"
  | PDict "(string \<times> pyval) list"

type_synonym pydict = "(string \<times> pyval) list"

fun dict_set :: "string \<Rightarrow> pyval \<Rightarrow> pydict \<Rightarrow> pydict" where
  "dict_set k v [] = [(k, v)]"
| "dict_set k v (e # d) = (if fst e = k then (k, v) # d else e # dict_set k v d)"

definition dict_get :: "pydict \<Rightarrow> string \<Rightarrow> pyval option" where
  "dict_get d k = map_of d k"

text \<open>
  The seven layers are the orchestrator's collaborators: each is a call that returns or
  raises. The \<open>report\<close> entries are the messages printed in verbose mode, which read
  entries of the intermediate results and write marks such as U+2713 and U+274C to the
  standard output, and may raise as well: \<open>report_start\<close> is the banner printed before the
  \<^verbatim>\<open>try\<close> block, \<open>report_error\<close> the message and traceback printed by the handler.
\<close>

record ('img, 'lay, 'ocr, 'sec, 'hdr, 'map) layers =
  report_start :: "'img \<Rightarrow> exn + unit"
  analyze_layout :: "'img \<Rightarrow> exn + 'lay"
  report_layout :: "'lay \<Rightarrow> exn + unit"
  perform_multipass_ocr :: "'img \<Rightarrow> 'lay \<Rightarrow> exn + 'ocr"
  report_ocr :: "'ocr \<Rightarrow> exn + unit"
  identify_sections :: "'ocr \<Rightarrow> exn + 'sec"
  report_sections :: "'sec \<Rightarrow> exn + unit"
  layer_validate_sections :: "'sec \<Rightarrow> exn + 'sec"
  extract_header_info :: "'ocr \<Rightarrow> 'lay \<Rightarrow> exn + 'hdr"
  map_to_template :: "'hdr \<Rightarrow> 'sec \<Rightarrow> string option \<Rightarrow> exn + 'map"
  process_final_output :: "'map \<Rightarrow> exn + pydict"
  report_final :: "pydict \<Rightarrow> exn + unit"
  report_error :: "string \<Rightarrow> exn + unit"

definition when_verbose :: "bool \<Rightarrow> exn + unit \<Rightarrow> exn + unit" where
  "when_verbose verbose report = (if verbose then report else Inr ())"

text \<open>The body of the \<^verbatim>\<open>try\<close> block of \<^verbatim>\<open>process_resume\<close>.\<close>

definition process_resume_try ::
  "('img, 'lay, 'ocr, 'sec, 'hdr, 'map) layers \<Rightarrow> bool \<Rightarrow> real \<Rightarrow> 'img \<Rightarrow> string option
     \<Rightarrow> exn + pydict" where
  "process_resume_try L verbose processing_time image_path template_path =
     and_then (analyze_layout L image_path) (\<lambda>layout_info.
     and_then (when_verbose verbose (report_layout L layout_info)) (\<lambda>_.
     and_then (perform_multipass_ocr L image_path layout_info) (\<lambda>ocr_results.
     and_then (when_verbose verbose (report_ocr L ocr_results)) (\<lambda>_.
     and_then (identify_sections L ocr_results) (\<lambda>identified_sections.
     and_then (when_verbose verbose (report_sections L identified_sections)) (\<lambda>_.
     and_then (layer_validate_sections L identified_sections) (\<lambda>validated_sections.
     and_then (extract_header_info L ocr_results layout_info) (\<lambda>header_info.
     and_then (map_to_template L header_info validated_sections template_path) (\<lambda>mapped_data.
     and_then (process_final_output L mapped_data) (\<lambda>final_output.
       (let final_output1 = dict_set ''processing_time'' (PFloat processing_time) final_output;
            final_output2 = dict_set ''pipeline_version'' (PStr ''1.0.0'') final_output1
        in and_then (when_verbose verbose (report_final L final_output2)) (\<lambda>_.
           Inr final_output2))))))))))))"

definition failure_result :: "exn \<Rightarrow> pydict" where
  "failure_result e =
     (let error_msg = ''Error processing resume: '' @ str_of_exn e
      in [(''success'', PBool False),
          (''error'', PStr error_msg),
          (''candidate_info'', PDict []),
          (''sections'', PDict []),
          (''quality_scores'', PDict [(''overall'', PFloat 0.0)]),
          (''warnings'', PList [PStr error_msg]),
          (''recommendations'', PList [PStr ''Please try manual data entry''])])"

text \<open>
  \<^verbatim>\<open>process_resume\<close>: the banner, the \<^verbatim>\<open>try\<close> block and its \<^verbatim>\<open>except Exception\<close>
  handler, which in verbose mode prints the error before it returns the failure result.
  What the banner or the handler raises leaves the function.
\<close>

definition process_resume ::
  "('img, 'lay, 'ocr, 'sec, 'hdr, 'map) layers \<Rightarrow> bool \<Rightarrow> real \<Rightarrow> 'img \<Rightarrow> string option
     \<Rightarrow> exn + pydict" where
  "process_resume L verbose processing_time image_path template_path =
     and_then (when_verbose verbose (report_start L image_path)) (\<lambda>_.
       case process_resume_try L verbose processing_time image_path template_path of
         Inr final_output \<Rightarrow> Inr final_output
       | Inl e \<Rightarrow>
           (let error_msg = ''Error processing resume: '' @ str_of_exn e
            in and_then (when_verbose verbose (report_error L error_msg)) (\<lambda>_.
                 Inr (failure_result e))))"

text \<open>
  A DOCX file as the extractor sees it: the images python-docx finds among the document's
  relationships (or its failure to open the file), the images found in the archive's
  \<^verbatim>\<open>word/media\<close> folder, and the paragraph texts (or the failure to read them).
\<close>

record 'img docx =
  docx_rel_images :: "exn + 'img list"
  docx_zip_images :: "'img list"
  docx_paragraphs :: "exn + string list"

definition extract_images_from_docx :: "'img docx \<Rightarrow> 'img list" where
  "extract_images_from_docx d =
     (case docx_rel_images d of
        Inl e \<Rightarrow> []
      | Inr images \<Rightarrow> if images = [] then docx_zip_images d else images)"

text \<open>\<open>paste\<close> stacks two or more images into one; it is Pillow's and may raise.\<close>

definition combine_images_vertically ::
  "('img list \<Rightarrow> exn + 'img) \<Rightarrow> 'img list \<Rightarrow> exn + 'img option" where
  "combine_images_vertically paste images =
     (case images of
        [] \<Rightarrow> Inr None
      | [img] \<Rightarrow> Inr (Some img)
      | _ \<Rightarrow> and_then (paste images) (\<lambda>combined. Inr (Some combined)))"

definition docx_to_ocr_image ::
  "('img list \<Rightarrow> exn + 'img) \<Rightarrow> 'img docx \<Rightarrow> exn + 'img option" where
  "docx_to_ocr_image paste d =
     (let image_tuples = extract_images_from_docx d
      in if image_tuples = [] then Inr None
         else combine_images_vertically paste image_tuples)"

definition extract_text_from_docx :: "'img docx \<Rightarrow> string" where
  "extract_text_from_docx d =
     (case docx_paragraphs d of
        Inl e \<Rightarrow> []
      | Inr paragraphs \<Rightarrow> join [CHR 0x0A] (filter (\<lambda>para. strip para \<noteq> []) paragraphs))"

definition text_only_result :: "string \<Rightarrow> pydict" where
  "text_only_result txt =
     [(''success'', PBool True),
      (''candidate_info'', PDict [(''name'', PStr ''Unknown'')]),
      (''sections'', PDict [(''RAW_TEXT'', PStr txt)]),
      (''quality_scores'', PDict [(''overall'', PFloat 0.5)]),
      (''warnings'', PList [PStr ''No images found in DOCX, extracted text only'']),
      (''recommendations'', PList [PStr ''Convert resume to image format for better OCR''])]"

definition empty_docx_result :: pydict where
  "empty_docx_result =
     [(''success'', PBool False),
      (''error'', PStr ''No images or text found in DOCX''),
      (''warnings'', PList [PStr ''DOCX appears to be empty'']),
      (''recommendations'', PList [PStr ''Please check the DOCX file''])]"

definition docx_failure_result :: "exn \<Rightarrow> pydict" where
  "docx_failure_result e =
     [(''success'', PBool False),
      (''error'', PStr (''Error processing DOCX: '' @ str_of_exn e)),
      (''warnings'', PList [PStr (str_of_exn e)]),
      (''recommendations'', PList [PStr ''Try converting DOCX to PDF or image first''])]"

definition process_docx_resume ::
  "('img, 'lay, 'ocr, 'sec, 'hdr, 'map) layers \<Rightarrow> ('img list \<Rightarrow> exn + 'img) \<Rightarrow> bool \<Rightarrow> real
     \<Rightarrow> 'img docx \<Rightarrow> string option \<Rightarrow> exn + pydict" where
  "process_docx_resume L paste verbose processing_time docx_path template_path =
     (case
        and_then (docx_to_ocr_image paste docx_path) (\<lambda>combined_image.
          case combined_image of
            None \<Rightarrow>
              (let txt = extract_text_from_docx docx_path
               in if txt \<noteq> [] then Inr (text_only_result txt) else Inr empty_docx_result)
          | Some img \<Rightarrow> process_resume L verbose processing_time img template_path)
      of Inr result \<Rightarrow> Inr result
       | Inl e \<Rightarrow> Inr (docx_failure_result e))"

text \<open>
  Layers whose section identifier raises; layers whose layout analysis raises on a standard
  output that cannot encode U+274C, so that the handler's own message raises
  \<^verbatim>\<open>UnicodeEncodeError\<close>; a DOCX file with nothing in it and one with two non-blank
  paragraphs and no image, for the examples below.
\<close>

definition encode_error :: exn where
  "encode_error = Exn ''charmap codec cannot encode character U+274C in position 1''"

definition unencodable_console_layers :: "(unit, unit, unit, unit, unit, unit) layers" where
  "unencodable_console_layers =
     \<lparr>report_start = (\<lambda>_. Inr ()),
      analyze_layout = (\<lambda>_. Inl (Exn ''list index out of range'')),
      report_layout = (\<lambda>_. Inr ()),
      perform_multipass_ocr = (\<lambda>_ _. Inr ()),
      report_ocr = (\<lambda>_. Inr ()),
      identify_sections = (\<lambda>_. Inr ()),
      report_sections = (\<lambda>_. Inr ()),
      layer_validate_sections = (\<lambda>_. Inr ()),
      extract_header_info = (\<lambda>_ _. Inr ()),
      map_to_template = (\<lambda>_ _ _. Inr ()),
      process_final_output = (\<lambda>_. Inr []),
      report_final = (\<lambda>_. Inr ()),
      report_error = (\<lambda>_. Inl encode_error)\<rparr>"

definition failing_layers :: "(unit, unit, unit, unit, unit, unit) layers" where
  "failing_layers =
     \<lparr>report_start = (\<lambda>_. Inr ()),
      analyze_layout = (\<lambda>_. Inr ()),
      report_layout = (\<lambda>_. Inr ()),
      perform_multipass_ocr = (\<lambda>_ _. Inr ()),
      report_ocr = (\<lambda>_. Inr ()),
      identify_sections = (\<lambda>_. Inl (Exn ''list index out of range'')),
      report_sections = (\<lambda>_. Inr ()),
      layer_validate_sections = (\<lambda>_. Inr ()),
      extract_header_info = (\<lambda>_ _. Inr ()),
      map_to_template = (\<lambda>_ _ _. Inr ()),
      process_final_output = (\<lambda>_. Inr []),
      report_final = (\<lambda>_. Inr ()),
      report_error = (\<lambda>_. Inr ())\<rparr>"

definition empty_docx :: "unit docx" where
  "empty_docx = \<lparr>docx_rel_images = Inr [], docx_zip_images = [], docx_paragraphs = Inr []\<rparr>"

definition text_docx :: "unit docx" where
  "text_docx = \<lparr>docx_rel_images = Inr [], docx_zip_images = [],
                 docx_paragraphs = Inr [''John Doe'', '' '', ''Engineer'']\<rparr>"

section \<open>Properties of the layout analyzer\<close>

lemma enumerate_entry:
  "(i, b) \<in> set (enumerate 0 bs) \<Longrightarrow> i < length bs \<and> b = bs ! i"
  by (auto simp: in_set_enumerate_eq)

lemma sorted_indices:
  assumes "set es \<subseteq> set (enumerate 0 bs)"
  shows "sorted (map (key_at bs) (map fst (sort_key reading_key es)))"
proof -
  have "map (key_at bs) (map fst (sort_key reading_key es)) = map reading_key (sort_key reading_key es)"
  proof (rule trans [OF map_map], rule map_cong [OF refl])
    fix e assume "e \<in> set (sort_key reading_key es)"
    then have "e \<in> set (enumerate 0 bs)" using assms by auto
    then have "snd e = bs ! fst e" using enumerate_entry [of "fst e" "snd e" bs] by simp
    then show "(key_at bs \<circ> fst) e = reading_key e" by (simp add: key_at_def reading_key_def)
  qed
  then show ?thesis by (simp only: sorted_sort_key)
qed

lemma mset_indices: "mset (map fst (sort_key reading_key es)) = mset (map fst es)"
  by (metis mset_map mset_sort)

lemma mset_partition_indices:
  "mset (map fst (filter P (enumerate 0 bs))) + mset (map fst (filter (\<lambda>e. \<not> P e) (enumerate 0 bs)))
     = mset [0..<length bs]"
proof -
  have "mset (map fst (filter P (enumerate 0 bs))) + mset (map fst (filter (\<lambda>e. \<not> P e) (enumerate 0 bs)))
      = mset (map fst (enumerate 0 bs))"
    by (metis mset_map image_mset_union multiset_partition mset_filter)
  then show ?thesis by (simp add: map_fst_enumerate)
qed

lemma precedes_in_append:
  assumes "\<forall>i\<in>set L. P i" "\<forall>j\<in>set R. \<not> P j"
    "p < length (L @ R)" "q < length (L @ R)" "P ((L @ R) ! p)" "\<not> P ((L @ R) ! q)"
  shows "p < q"
proof -
  have "p < length L"
  proof (rule ccontr)
    assume "\<not> p < length L"
    then have "(L @ R) ! p \<in> set R" using assms(3) by (simp add: nth_append)
    then show False using assms(2,5) by blast
  qed
  moreover have "\<not> q < length L"
  proof
    assume "q < length L"
    then have "(L @ R) ! q \<in> set L" by (simp add: nth_append)
    then show False using assms(1,6) by blast
  qed
  ultimately show ?thesis by simp
qed

lemma entirely_left:
  "0 < tb_width b \<and> tb_x b + tb_width b \<le> divider \<Longrightarrow> left_of_divider divider b"
proof -
  assume a: "0 < tb_width b \<and> tb_x b + tb_width b \<le> divider"
  then have "real_of_int (tb_x b) + real_of_int (tb_width b) \<le> real_of_int divider"
    by (metis of_int_add of_int_le_iff)
  moreover have "0 < real_of_int (tb_width b)" using a by simp
  ultimately show ?thesis by (simp add: left_of_divider_def block_center_def)
qed

lemma entirely_right:
  "0 \<le> tb_width b \<and> divider \<le> tb_x b \<Longrightarrow> \<not> left_of_divider divider b"
proof -
  assume a: "0 \<le> tb_width b \<and> divider \<le> tb_x b"
  then have "real_of_int divider \<le> real_of_int (tb_x b)" by simp
  moreover have "0 \<le> real_of_int (tb_width b)" using a by simp
  ultimately show ?thesis by (simp add: left_of_divider_def block_center_def)
qed

text \<open>
  Claim C6. For a non-empty list of text blocks and a two-column layout with divider \<open>d\<close>,
  the reading order is \<open>L @ R\<close>: \<open>L\<close> holds exactly the indices of the blocks left of the
  divider (centre \<open>x + width / 2 < d\<close>), \<open>R\<close> those of the others, each sorted by
  \<open>(y, x)\<close>, the whole a permutation of the indices; so every left block comes before every
  right block. For a one-column layout the order is a permutation of the indices sorted by
  \<open>(y, x)\<close>. A block of positive width that ends at or before the divider is left of it, and
  a block that starts at or after the divider is not.
\<close>

theorem reading_order_left_column_first:
  assumes "text_blocks \<noteq> []"
  shows "(col_count cols = 2 \<and> col_divider cols = Some divider \<longrightarrow>
           (\<exists>L R. create_reading_order text_blocks cols = Inr (L @ R) \<and>
              (\<forall>i\<in>set L. i < length text_blocks \<and> left_of_divider divider (text_blocks ! i)) \<and>
              (\<forall>j\<in>set R. j < length text_blocks \<and> \<not> left_of_divider divider (text_blocks ! j)) \<and>
              sorted (map (key_at text_blocks) L) \<and> sorted (map (key_at text_blocks) R) \<and>
              mset (L @ R) = mset [0..<length text_blocks] \<and>
              (\<forall>p q. p < length (L @ R) \<and> q < length (L @ R) \<and>
                     left_of_divider divider (text_blocks ! ((L @ R) ! p)) \<and>
                     \<not> left_of_divider divider (text_blocks ! ((L @ R) ! q)) \<longrightarrow> p < q))) \<and>
         (col_count cols = 1 \<longrightarrow>
           (\<exists>order. create_reading_order text_blocks cols = Inr order \<and>
              sorted (map (key_at text_blocks) order) \<and>
              mset order = mset [0..<length text_blocks])) \<and>
         (\<forall>b \<in> set text_blocks. 0 < tb_width b \<and> tb_x b + tb_width b \<le> divider \<longrightarrow>
              left_of_divider divider b) \<and>
         (\<forall>b \<in> set text_blocks. 0 \<le> tb_width b \<and> divider \<le> tb_x b \<longrightarrow>
              \<not> left_of_divider divider b)"
proof (intro conjI impI ballI)
  assume c: "col_count cols = 2 \<and> col_divider cols = Some divider"
  let ?P = "\<lambda>(idx, block). block_center block < real_of_int divider"
  let ?ls = "filter ?P (enumerate 0 text_blocks)"
  let ?rs = "filter (\<lambda>e. \<not> ?P e) (enumerate 0 text_blocks)"
  define L where "L = map fst (sort_key reading_key ?ls)"
  define R where "R = map fst (sort_key reading_key ?rs)"
  have rs: "filter (\<lambda>(idx, block). \<not> block_center block < real_of_int divider)
              (enumerate 0 text_blocks) = ?rs"
    by (rule filter_cong) auto
  have res: "create_reading_order text_blocks cols = Inr (L @ R)"
    using assms c by (simp add: create_reading_order_def Let_def L_def R_def rs)
  have inL: "i < length text_blocks \<and> left_of_divider divider (text_blocks ! i)" if "i \<in> set L" for i
  proof -
    from that have "i \<in> fst ` set ?ls" by (simp add: L_def)
    then obtain b where "(i, b) \<in> set ?ls" by force
    then show ?thesis using enumerate_entry [of i b text_blocks]
      by (auto simp: left_of_divider_def)
  qed
  have inR: "j < length text_blocks \<and> \<not> left_of_divider divider (text_blocks ! j)" if "j \<in> set R" for j
  proof -
    from that have "j \<in> fst ` set ?rs" by (simp add: R_def)
    then obtain b where "(j, b) \<in> set ?rs" by force
    then show ?thesis using enumerate_entry [of j b text_blocks]
      by (auto simp: left_of_divider_def)
  qed
  have sL: "sorted (map (key_at text_blocks) L)"
    unfolding L_def by (rule sorted_indices) auto
  have sR: "sorted (map (key_at text_blocks) R)"
    unfolding R_def by (rule sorted_indices) auto
  have perm: "mset (L @ R) = mset [0..<length text_blocks]"
    using mset_partition_indices [of ?P text_blocks]
    by (simp add: L_def R_def mset_indices)
  have prec: "\<forall>p q. p < length (L @ R) \<and> q < length (L @ R) \<and>
                     left_of_divider divider (text_blocks ! ((L @ R) ! p)) \<and>
                     \<not> left_of_divider divider (text_blocks ! ((L @ R) ! q)) \<longrightarrow> p < q"
    using precedes_in_append [of L "\<lambda>i. left_of_divider divider (text_blocks ! i)" R] inL inR
    by blast
  show "\<exists>L R. create_reading_order text_blocks cols = Inr (L @ R) \<and>
              (\<forall>i\<in>set L. i < length text_blocks \<and> left_of_divider divider (text_blocks ! i)) \<and>
              (\<forall>j\<in>set R. j < length text_blocks \<and> \<not> left_of_divider divider (text_blocks ! j)) \<and>
              sorted (map (key_at text_blocks) L) \<and> sorted (map (key_at text_blocks) R) \<and>
              mset (L @ R) = mset [0..<length text_blocks] \<and>
              (\<forall>p q. p < length (L @ R) \<and> q < length (L @ R) \<and>
                     left_of_divider divider (text_blocks ! ((L @ R) ! p)) \<and>
                     \<not> left_of_divider divider (text_blocks ! ((L @ R) ! q)) \<longrightarrow> p < q)"
    using res inL inR sL sR perm prec by blast
next
  assume c: "col_count cols = 1"
  define order where "order = map fst (sort_key reading_key (enumerate 0 text_blocks))"
  have "create_reading_order text_blocks cols = Inr order"
    using assms c by (simp add: create_reading_order_def order_def)
  moreover have "sorted (map (key_at text_blocks) order)"
    unfolding order_def by (rule sorted_indices) auto
  moreover have "mset order = mset [0..<length text_blocks]"
    unfolding order_def mset_indices by (simp only: map_fst_enumerate add_0)
  ultimately show "\<exists>order. create_reading_order text_blocks cols = Inr order \<and>
              sorted (map (key_at text_blocks) order) \<and>
              mset order = mset [0..<length text_blocks]"
    by blast
next
  fix b assume "0 < tb_width b \<and> tb_x b + tb_width b \<le> divider"
  then show "left_of_divider divider b" by (rule entirely_left)
next
  fix b assume "0 \<le> tb_width b \<and> divider \<le> tb_x b"
  then show "\<not> left_of_divider divider b" by (rule entirely_right)
qed

lemma collect_Inr_iff:
  "collect ms = Inr vs \<longleftrightarrow> ms = map Inr vs"
proof (induction ms arbitrary: vs)
  case Nil
  show ?case by auto
next
  case (Cons m ms)
  show ?case
  proof (cases m)
    case (Inl e)
    then show ?thesis by (auto simp: and_then_def)
  next
    case (Inr v)
    show ?thesis
    proof (cases "collect ms")
      case (Inl e)
      then have "\<And>ws. ms \<noteq> map Inr ws" using Cons.IH by auto
      then show ?thesis using Inl Inr by (cases vs) (auto simp: and_then_def)
    next
      case r: (Inr ws)
      then have "ms = map Inr ws" using Cons.IH by simp
      then show ?thesis using r Inr by (cases vs) (auto simp: and_then_def)
    qed
  qed
qed


lemma block_confidence:
  assumes "block_of_detection h (i, d) = Inr b"
  shows "tb_confidence b = det_conf d * 100"
proof -
  have "\<exists>x y w g z. b = \<lparr>tb_text = det_text d, tb_bbox = (x, y, w, g),
            tb_confidence = det_conf d * 100, tb_x = x, tb_y = y, tb_width = w, tb_height = g,
            tb_is_heading = False, tb_zone = z, tb_block_num = i, tb_line_num = i\<rparr>"
    using assms
    by (auto simp: block_of_detection_def Let_def and_then_def split: sum.splits)
  then show ?thesis by auto
qed

text \<open>
  Whenever blocks are returned, each carries 100 times the confidence of its detection:
  the scale of the source (\<^verbatim>\<open>conf * 100\<close>, "convert to 0-100").
\<close>

lemma extracted_confidence_scale:
  assumes "extract_text_blocks warn readtext h = Inr blocks" and "blocks \<noteq> []"
  shows "\<exists>result. readtext = Inr result \<and>
           map tb_confidence blocks = map (\<lambda>d. det_conf d * 100) result"
proof (cases readtext)
  case (Inl e)
  then show ?thesis
    using assms by (auto simp: extract_text_blocks_def and_then_def split: sum.splits)
next
  case (Inr result)
  then have ne: "result \<noteq> []" using assms by (auto simp: extract_text_blocks_def)
  then have "collect (map (block_of_detection h) (enumerate 0 result)) = Inr blocks"
    using assms Inr by (simp add: extract_text_blocks_def)
  then have m: "map (block_of_detection h) (enumerate 0 result) = map Inr blocks"
    by (simp add: collect_Inr_iff)
  then have len: "length blocks = length result"
    by (metis length_map length_enumerate)
  have "map tb_confidence blocks = map (\<lambda>d. det_conf d * 100) result"
  proof (rule nth_equalityI)
    show "length (map tb_confidence blocks) = length (map (\<lambda>d. det_conf d * 100) result)"
      using len by simp
  next
    fix k assume "k < length (map tb_confidence blocks)"
    then have k: "k < length result" using len by simp
    have "map (block_of_detection h) (enumerate 0 result) ! k = map Inr blocks ! k"
      using m by simp
    then have "block_of_detection h (k, result ! k) = Inr (blocks ! k)"
      using k len by (simp add: nth_enumerate_eq)
    then have "tb_confidence (blocks ! k) = det_conf (result ! k) * 100"
      by (rule block_confidence)
    then show "map tb_confidence blocks ! k = map (\<lambda>d. det_conf d * 100) result ! k"
      using k len by simp
  qed
  then show ?thesis using Inr by blast
qed



lemma example_two_column_order:
  "create_reading_order example_blocks two_columns = Inr [2, 1, 0]"
  by code_simp

lemma example_one_column_order:
  "create_reading_order example_blocks one_column = Inr [0, 2, 1]"
  by code_simp

text \<open>
  Claim C6 at three blocks, one right of the divider 300 and two left of it, in a
  two-column and in a one-column layout.
\<close>

theorem reading_order_left_column_first_witness:
  "example_blocks \<noteq> [] \<and> col_count two_columns = 2 \<and> col_divider two_columns = Some 300 \<and>
   col_count one_column = 1 \<and>
   (\<exists>L R. Inr [2, 1, 0] = (Inr (L @ R) :: exn + nat list) \<and>
      list_all (\<lambda>i. left_of_divider 300 (example_blocks ! i)) L \<and>
      list_all (\<lambda>j. \<not> left_of_divider 300 (example_blocks ! j)) R \<and>
      sorted (map (key_at example_blocks) L) \<and> sorted (map (key_at example_blocks) R)) \<and>
   sorted (map (key_at example_blocks) [0, 2, 1])"
proof -
  have ne: "example_blocks \<noteq> []" by (simp add: example_blocks_def)
  have c2: "col_count two_columns = 2 \<and> col_divider two_columns = Some 300"
    by (simp add: two_columns_def)
  have c1: "col_count one_column = 1" by (simp add: one_column_def)
  note th2 = reading_order_left_column_first [OF ne, of two_columns 300]
  note th1 = reading_order_left_column_first [OF ne, of one_column 300]
  from th2 c2 obtain L R where
    "create_reading_order example_blocks two_columns = Inr (L @ R)"
    "\<forall>i\<in>set L. i < length example_blocks \<and> left_of_divider 300 (example_blocks ! i)"
    "\<forall>j\<in>set R. j < length example_blocks \<and> \<not> left_of_divider 300 (example_blocks ! j)"
    "sorted (map (key_at example_blocks) L)" "sorted (map (key_at example_blocks) R)"
    by blast
  then have two: "\<exists>L R. Inr [2, 1, 0] = (Inr (L @ R) :: exn + nat list) \<and>
      list_all (\<lambda>i. left_of_divider 300 (example_blocks ! i)) L \<and>
      list_all (\<lambda>j. \<not> left_of_divider 300 (example_blocks ! j)) R \<and>
      sorted (map (key_at example_blocks) L) \<and> sorted (map (key_at example_blocks) R)"
    unfolding example_two_column_order list_all_iff by blast
  from th1 c1 have one: "sorted (map (key_at example_blocks) [0, 2, 1])"
    unfolding example_one_column_order by auto
  show ?thesis using ne c2 c1 two one by blast
qed

section \<open>Properties of the section identifier\<close>

lemma score_employment_keeps_education:
  "sc_education (score_employment content_lower scores) = sc_education scores"
  by (simp add: score_employment_def Let_def)

lemma employment_counted_eq:
  "employment_counted content =
     (if education_points content < 5 then employment_indicators (lower content) else 0)"
  by (simp add: employment_counted_def education_points_def score_employment_def
      employment_indicators_def Let_def score_education_def)

text \<open>
  Claim C7. For every content whose education score (strong patterns times 5 plus
  education keywords times 2) reaches 5, \<^verbatim>\<open>_classify_content_by_analysis\<close> returns
  EDUCATION, with or without spaCy, and the employment branch has added nothing to the
  employment score: its indicators are counted only when the education score is below 5.
\<close>

theorem education_short_circuit:
  assumes "5 \<le> education_points content"
  shows "classify_content_by_analysis nlp content = Some ''EDUCATION'' \<and>
         employment_counted content = 0"
  using assms
  by (simp add: classify_content_by_analysis_def Let_def score_employment_keeps_education
      employment_counted_eq education_points_def)

lemma short_circuit_example_scores:
  "education_points ''Duties: university company'' = 5"
  "employment_indicators (lower ''Duties: university company'') = 8"
  by code_simp+

text \<open>
  Claim C7 at a text with one strong education pattern and employment indicators worth 8,
  the score at which EMPLOYMENT would otherwise be returned.
\<close>

theorem education_short_circuit_witness:
  "5 \<le> education_points ''Duties: university company'' \<and>
   employment_indicators (lower ''Duties: university company'') = 8 \<and>
   classify_content_by_analysis None ''Duties: university company'' = Some ''EDUCATION'' \<and>
   employment_counted ''Duties: university company'' = 0"
proof -
  have h: "5 \<le> education_points ''Duties: university company''"
    by (simp add: short_circuit_example_scores)
  show ?thesis
    using h education_short_circuit [OF h, of None] short_circuit_example_scores(2) by simp
qed

section \<open>Properties of the content validator\<close>

lemma validate_content_parts:
  "validate_content nlp t S = (2 / 5 \<le> confidence_in nlp t S, confidence_in nlp t S, reason_in nlp t S)"
  by (simp add: validate_content_def confidence_in_def reason_in_def Let_def split: option.splits)

lemma find_step_eq:
  "find_step nlp t best k =
     (if snd best < confidence_in nlp t k then (Some k, confidence_in nlp t k) else best)"
  by (simp add: find_step_def validate_content_parts)

lemma find_fold:
  "\<exists>bs' bc'. foldl (find_step nlp t) (bs, bc) ks = (bs', bc') \<and> bc \<le> bc' \<and>
     (\<forall>U\<in>set ks. confidence_in nlp t U \<le> bc') \<and>
     ((bs' = bs \<and> bc' = bc) \<or>
      (\<exists>T. bs' = Some T \<and> T \<in> set ks \<and> confidence_in nlp t T = bc' \<and> bc < bc' \<and>
           (\<forall>U\<in>set (takeWhile (\<lambda>U. U \<noteq> T) ks). confidence_in nlp t U < confidence_in nlp t T)))"
proof (induction ks rule: rev_induct)
  case Nil
  show ?case by simp
next
  case (snoc k ks)
  then obtain bs' bc' where g: "foldl (find_step nlp t) (bs, bc) ks = (bs', bc')"
    and le: "bc \<le> bc'" and ub: "\<forall>U\<in>set ks. confidence_in nlp t U \<le> bc'"
    and alt: "(bs' = bs \<and> bc' = bc) \<or>
      (\<exists>T. bs' = Some T \<and> T \<in> set ks \<and> confidence_in nlp t T = bc' \<and> bc < bc' \<and>
           (\<forall>U\<in>set (takeWhile (\<lambda>U. U \<noteq> T) ks). confidence_in nlp t U < confidence_in nlp t T))"
    by blast
  show ?case
  proof (cases "bc' < confidence_in nlp t k")
    case True
    have sub: "set (takeWhile (\<lambda>U. U \<noteq> k) (ks @ [k])) \<subseteq> set ks"
      by (auto simp: takeWhile_append dest: set_takeWhileD)
    have "foldl (find_step nlp t) (bs, bc) (ks @ [k]) = (Some k, confidence_in nlp t k)"
      using True g by (simp add: find_step_eq)
    moreover have "\<forall>U\<in>set (ks @ [k]). confidence_in nlp t U \<le> confidence_in nlp t k"
      using ub True by fastforce
    moreover have "\<forall>U\<in>set (takeWhile (\<lambda>U. U \<noteq> k) (ks @ [k])).
        confidence_in nlp t U < confidence_in nlp t k"
      using ub True sub by fastforce
    ultimately show ?thesis using le True by auto
  next
    case False
    have eq: "foldl (find_step nlp t) (bs, bc) (ks @ [k]) = (bs', bc')"
      using False g by (simp add: find_step_eq)
    have ub': "\<forall>U\<in>set (ks @ [k]). confidence_in nlp t U \<le> bc'"
      using ub False by auto
    from alt show ?thesis
    proof
      assume "bs' = bs \<and> bc' = bc"
      then show ?thesis using eq ub' le by auto
    next
      assume "\<exists>T. bs' = Some T \<and> T \<in> set ks \<and> confidence_in nlp t T = bc' \<and> bc < bc' \<and>
           (\<forall>U\<in>set (takeWhile (\<lambda>U. U \<noteq> T) ks). confidence_in nlp t U < confidence_in nlp t T)"
      then obtain T where T: "bs' = Some T" "T \<in> set ks" "confidence_in nlp t T = bc'" "bc < bc'"
        "\<forall>U\<in>set (takeWhile (\<lambda>U. U \<noteq> T) ks). confidence_in nlp t U < confidence_in nlp t T"
        by blast
      have "takeWhile (\<lambda>U. U \<noteq> T) (ks @ [k]) = takeWhile (\<lambda>U. U \<noteq> T) ks"
        using T(2) by (simp add: takeWhile_append1)
      then show ?thesis using T eq ub' le by auto
    qed
  qed
qed

lemma first_of_two:
  assumes "T \<in> set ks" "T' \<in> set ks" "T \<noteq> T'"
  shows "T \<in> set (takeWhile (\<lambda>U. U \<noteq> T') ks) \<or> T' \<in> set (takeWhile (\<lambda>U. U \<noteq> T) ks)"
  using assms by (induction ks) auto

lemma find_correct_section_Some_iff:
  "find_correct_section nlp t = Some T \<longleftrightarrow>
     T \<in> set signature_keys \<and> 1 / 2 \<le> confidence_in nlp t T \<and>
     (\<forall>U\<in>set signature_keys. confidence_in nlp t U \<le> confidence_in nlp t T) \<and>
     (\<forall>U\<in>set (takeWhile (\<lambda>U. U \<noteq> T) signature_keys).
         confidence_in nlp t U < confidence_in nlp t T)"
  (is "?L \<longleftrightarrow> ?R")
proof -
  obtain bs' bc' where g: "foldl (find_step nlp t) (None, 0) signature_keys = (bs', bc')"
    and le: "0 \<le> bc'" and ub: "\<forall>U\<in>set signature_keys. confidence_in nlp t U \<le> bc'"
    and alt: "(bs' = None \<and> bc' = 0) \<or>
      (\<exists>T. bs' = Some T \<and> T \<in> set signature_keys \<and> confidence_in nlp t T = bc' \<and> 0 < bc' \<and>
           (\<forall>U\<in>set (takeWhile (\<lambda>U. U \<noteq> T) signature_keys).
               confidence_in nlp t U < confidence_in nlp t T))"
    using find_fold [of nlp t None 0 signature_keys] by blast
  have res: "find_correct_section nlp t = (if 1 / 2 \<le> bc' then bs' else None)"
    using g by (simp add: find_correct_section_def signature_keys_def)
  show ?thesis
  proof
    assume ?L
    then have "1 / 2 \<le> bc'" "bs' = Some T" using res by (auto split: if_splits)
    then show ?R using alt ub by auto
  next
    assume R: ?R
    then have big: "1 / 2 \<le> bc'" using ub by fastforce
    then obtain T' where T': "bs' = Some T'" "T' \<in> set signature_keys"
      "confidence_in nlp t T' = bc'"
      "\<forall>U\<in>set (takeWhile (\<lambda>U. U \<noteq> T') signature_keys).
               confidence_in nlp t U < confidence_in nlp t T'"
      using alt by auto
    have same: "confidence_in nlp t T' = confidence_in nlp t T"
      using R T' ub by (metis order_antisym)
    have "T' = T"
    proof (rule ccontr)
      assume "T' \<noteq> T"
      then have "T' \<in> set (takeWhile (\<lambda>U. U \<noteq> T) signature_keys) \<or>
                 T \<in> set (takeWhile (\<lambda>U. U \<noteq> T') signature_keys)"
        using first_of_two [of T' signature_keys T] T'(2) R by blast
      then show False using R T'(4) same by fastforce
    qed
    then show ?L using res big T'(1) by simp
  qed
qed

lemma find_correct_section_None_iff:
  "find_correct_section nlp t = None \<longleftrightarrow>
     (\<forall>U\<in>set signature_keys. confidence_in nlp t U < 1 / 2)"
proof -
  obtain bs' bc' where g: "foldl (find_step nlp t) (None, 0) signature_keys = (bs', bc')"
    and le: "0 \<le> bc'" and ub: "\<forall>U\<in>set signature_keys. confidence_in nlp t U \<le> bc'"
    and alt: "(bs' = None \<and> bc' = 0) \<or>
      (\<exists>T. bs' = Some T \<and> T \<in> set signature_keys \<and> confidence_in nlp t T = bc' \<and> 0 < bc' \<and>
           (\<forall>U\<in>set (takeWhile (\<lambda>U. U \<noteq> T) signature_keys).
               confidence_in nlp t U < confidence_in nlp t T))"
    using find_fold [of nlp t None 0 signature_keys] by blast
  have res: "find_correct_section nlp t = (if 1 / 2 \<le> bc' then bs' else None)"
    using g by (simp add: find_correct_section_def signature_keys_def)
  show ?thesis
  proof
    assume n: "find_correct_section nlp t = None"
    have "bc' < 1 / 2"
    proof (rule ccontr)
      assume "\<not> bc' < 1 / 2"
      then have "1 / 2 \<le> bc'" by simp
      then show False using n res alt by auto
    qed
    then show "\<forall>U\<in>set signature_keys. confidence_in nlp t U < 1 / 2"
      using ub by fastforce
  next
    assume a: "\<forall>U\<in>set signature_keys. confidence_in nlp t U < 1 / 2"
    show "find_correct_section nlp t = None"
    proof (cases "1 / 2 \<le> bc'")
      case True
      then show ?thesis using alt a by fastforce
    next
      case False
      then show ?thesis using res by simp
    qed
  qed
qed

lemma signature_keys_nonempty: "T \<in> set signature_keys \<Longrightarrow> T \<noteq> []"
  by (auto simp: signature_keys_def CONTENT_SIGNATURES_def)

lemma find_correct_section_conf:
  "find_correct_section nlp t = Some T \<Longrightarrow> 1 / 2 \<le> confidence_in nlp t T \<and> T \<noteq> []"
  using find_correct_section_Some_iff [of nlp t T] signature_keys_nonempty by blast

lemma validate_block_blank:
  "strip (block_text b) = [] \<Longrightarrow> validate_block nlp S st b = st"
  by (simp add: validate_block_def)

lemma validate_block_keep:
  "strip (block_text b) \<noteq> [] \<Longrightarrow> 1 / 2 \<le> confidence_in nlp (block_text b) S \<Longrightarrow>
   validate_block nlp S st b =
     st\<lparr>validated_sections := append_to (validated_sections st) S b\<rparr>"
  by (simp add: validate_block_def validate_content_parts)

lemma validate_block_move:
  assumes "strip (block_text b) \<noteq> []" "confidence_in nlp (block_text b) S < 1 / 2"
    "find_correct_section nlp (block_text b) = Some T"
  shows "validate_block nlp S st b =
     st\<lparr>validated_sections := append_to (ensure_key (validated_sections st) T) T b,
        moved_content := moved_content st @
          [\<lparr>move_from = S, move_to = T, move_text = take 60 (block_text b)\<rparr>]\<rparr>"
    and "T \<noteq> S"
proof -
  have T: "1 / 2 \<le> confidence_in nlp (block_text b) T" "T \<noteq> []"
    using find_correct_section_conf [OF assms(3)] by auto
  then show ne: "T \<noteq> S" using assms(2) by auto
  show "validate_block nlp S st b =
     st\<lparr>validated_sections := append_to (ensure_key (validated_sections st) T) T b,
        moved_content := moved_content st @
          [\<lparr>move_from = S, move_to = T, move_text = take 60 (block_text b)\<rparr>]\<rparr>"
    using assms T ne by (simp add: validate_block_def validate_content_parts Let_def)
qed

lemma validate_block_drop:
  assumes "strip (block_text b) \<noteq> []" "confidence_in nlp (block_text b) S < 3 / 10"
    "find_correct_section nlp (block_text b) = None"
  shows "validate_block nlp S st b =
     st\<lparr>removed_content := removed_content st @
          [\<lparr>removal_section = S, removal_text = take 60 (block_text b),
            removal_confidence = confidence_in nlp (block_text b) S\<rparr>]\<rparr>"
  using assms by (simp add: validate_block_def validate_content_parts Let_def)

lemma validate_block_flag:
  assumes "strip (block_text b) \<noteq> []" "3 / 10 \<le> confidence_in nlp (block_text b) S"
    "confidence_in nlp (block_text b) S < 1 / 2"
    "find_correct_section nlp (block_text b) = None"
  shows "validate_block nlp S st b =
     st\<lparr>validated_sections := append_to (validated_sections st) S
          (b\<lparr>validation_warning := Some (reason_in nlp (block_text b) S)\<rparr>)\<rparr>"
  using assms by (simp add: validate_block_def validate_content_parts Let_def)

text \<open>The five outcomes cover every block.\<close>

lemma validate_block_cases:
  obtains (blank) "strip (block_text b) = []"
  | (keep) "strip (block_text b) \<noteq> []" "1 / 2 \<le> confidence_in nlp (block_text b) S"
  | (move) T where "strip (block_text b) \<noteq> []" "confidence_in nlp (block_text b) S < 1 / 2"
      "find_correct_section nlp (block_text b) = Some T"
  | (drop) "strip (block_text b) \<noteq> []" "confidence_in nlp (block_text b) S < 3 / 10"
      "find_correct_section nlp (block_text b) = None"
  | (flag) "strip (block_text b) \<noteq> []" "3 / 10 \<le> confidence_in nlp (block_text b) S"
      "confidence_in nlp (block_text b) S < 1 / 2"
      "find_correct_section nlp (block_text b) = None"
  by (cases "find_correct_section nlp (block_text b)") fastforce+

lemma all_blocks_ensure_key [simp]: "all_blocks (ensure_key d k) P = all_blocks d P"
  by (simp add: all_blocks_def ensure_key_def)

lemma all_blocks_append_to:
  "all_blocks d P \<Longrightarrow> P k b \<Longrightarrow> all_blocks (append_to d k b) P"
  by (induction d) (auto simp: all_blocks_def append_to_def split: if_splits)

lemma keys_append_to [simp]: "map fst (append_to d k b) = map fst d"
  by (induction d) (auto simp: append_to_def)

lemma keys_ensure_key:
  "map fst (ensure_key d k) = (if k \<in> set (map fst d) then map fst d else map fst d @ [k])"
  by (auto simp: ensure_key_def map_of_eq_None_iff)

lemma distinct_ensure_key: "distinct (map fst d) \<Longrightarrow> distinct (map fst (ensure_key d k))"
  by (simp add: keys_ensure_key)

lemma stable_keep:
  "strip (block_text b) \<noteq> [] \<Longrightarrow> 1 / 2 \<le> confidence_in nlp (block_text b) S \<Longrightarrow> stable nlp S b"
  by (simp add: stable_def)

lemma stable_flag:
  "strip (block_text b) \<noteq> [] \<Longrightarrow> 3 / 10 \<le> confidence_in nlp (block_text b) S \<Longrightarrow>
   find_correct_section nlp (block_text b) = None \<Longrightarrow>
   stable nlp S (b\<lparr>validation_warning := Some (reason_in nlp (block_text b) S)\<rparr>)"
  by (simp add: stable_def)

lemma stable_conf: "stable nlp S b \<Longrightarrow> 3 / 10 \<le> confidence_in nlp (block_text b) S"
  by (auto simp: stable_def)

lemma validate_block_stable:
  assumes "stable nlp S b"
  shows "validate_block nlp S st b =
     st\<lparr>validated_sections := append_to (validated_sections st) S b\<rparr>"
proof (cases "1 / 2 \<le> confidence_in nlp (block_text b) S")
  case True
  then show ?thesis using assms validate_block_keep by (simp add: stable_def)
next
  case False
  then have f: "strip (block_text b) \<noteq> []" "3 / 10 \<le> confidence_in nlp (block_text b) S"
    "confidence_in nlp (block_text b) S < 1 / 2"
    "find_correct_section nlp (block_text b) = None"
    and w: "validation_warning b = Some (reason_in nlp (block_text b) S)"
    using assms by (auto simp: stable_def)
  have "b\<lparr>validation_warning := Some (reason_in nlp (block_text b) S)\<rparr> = b"
    using w by simp
  then show ?thesis using validate_block_flag [OF f, of st] by simp
qed

lemma well_filed_ensure_key: "well_filed nlp d \<Longrightarrow> well_filed nlp (ensure_key d k)"
  by (simp add: well_filed_def distinct_ensure_key)

lemma well_filed_append_to:
  "well_filed nlp d \<Longrightarrow> stable nlp k b \<Longrightarrow> well_filed nlp (append_to d k b)"
  by (simp add: well_filed_def all_blocks_append_to)

lemma validate_block_well_filed:
  assumes "well_filed nlp (validated_sections st)"
  shows "well_filed nlp (validated_sections (validate_block nlp S st b))"
proof (cases rule: validate_block_cases [where b = b and nlp = nlp and S = S])
  case blank
  then show ?thesis using assms by (simp add: validate_block_blank)
next
  case keep
  then show ?thesis using assms
    by (simp add: validate_block_keep well_filed_append_to stable_keep)
next
  case (move T)
  have "stable nlp T b"
    using move find_correct_section_conf [OF move(3)] by (simp add: stable_keep)
  then show ?thesis using assms move
    by (simp add: validate_block_move(1) well_filed_append_to well_filed_ensure_key)
next
  case drop
  then show ?thesis using assms by (simp add: validate_block_drop)
next
  case flag
  then show ?thesis using assms
    by (simp add: validate_block_flag well_filed_append_to stable_flag)
qed

lemma foldl_validate_block_well_filed:
  "well_filed nlp (validated_sections st) \<Longrightarrow>
   well_filed nlp (validated_sections (foldl (validate_block nlp S) st bs))"
  by (induction bs arbitrary: st) (simp_all add: validate_block_well_filed)

lemma validate_section_well_filed:
  "well_filed nlp (validated_sections st) \<Longrightarrow>
   well_filed nlp (validated_sections (validate_section nlp st e))"
  by (cases e) (simp add: validate_section_def foldl_validate_block_well_filed well_filed_ensure_key)

lemma foldl_validate_section_well_filed:
  "well_filed nlp (validated_sections st) \<Longrightarrow>
   well_filed nlp (validated_sections (foldl (validate_section nlp) st d))"
  by (induction d arbitrary: st) (simp_all add: validate_section_well_filed)

lemma validate_sections_well_filed: "well_filed nlp (validate_sections nlp d)"
  unfolding validate_sections_def validate_sections_run_def
  by (rule foldl_validate_section_well_filed) (simp add: well_filed_def all_blocks_def)

text \<open>A pass over well-filed sections changes nothing.\<close>

lemma append_to_last:
  "k \<notin> set (map fst acc) \<Longrightarrow> append_to (acc @ [(k, pre)]) k b = acc @ [(k, pre @ [b])]"
  by (induction acc) (auto simp: append_to_def)

lemma foldl_validate_block_stable:
  assumes "k \<notin> set (map fst acc)" "list_all (stable nlp k) bs"
    "validated_sections st = acc @ [(k, pre)]"
  shows "foldl (validate_block nlp k) st bs = st\<lparr>validated_sections := acc @ [(k, pre @ bs)]\<rparr>"
  using assms
proof (induction bs arbitrary: st pre)
  case Nil
  then show ?case by simp
next
  case (Cons b bs)
  have step: "validate_block nlp k st b = st\<lparr>validated_sections := acc @ [(k, pre @ [b])]\<rparr>"
    using Cons.prems by (simp add: validate_block_stable append_to_last)
  show ?case
    using Cons.IH [of "validate_block nlp k st b" "pre @ [b]"] Cons.prems step by simp
qed

lemma validate_section_stable:
  assumes "k \<notin> set (map fst (validated_sections st))" "list_all (stable nlp k) bs"
  shows "validate_section nlp st (k, bs) =
           st\<lparr>validated_sections := validated_sections st @ [(k, bs)]\<rparr>"
proof -
  have e: "ensure_key (validated_sections st) k = validated_sections st @ [(k, [])]"
    using assms(1) by (simp add: ensure_key_def map_of_eq_None_iff)
  show ?thesis
    unfolding validate_section_def
    using foldl_validate_block_stable [OF assms(1) assms(2),
        of "st\<lparr>validated_sections := validated_sections st @ [(k, [])]\<rparr>" "[]"] e
    by simp
qed

lemma foldl_validate_section_stable:
  assumes "distinct (map fst d)" "set (map fst d) \<inter> set (map fst (validated_sections st)) = {}"
    "all_blocks d (stable nlp)"
  shows "foldl (validate_section nlp) st d = st\<lparr>validated_sections := validated_sections st @ d\<rparr>"
  using assms
proof (induction d arbitrary: st)
  case Nil
  then show ?case by simp
next
  case (Cons e d)
  obtain k bs where e: "e = (k, bs)" by (cases e)
  have k: "k \<notin> set (map fst (validated_sections st))" and s: "list_all (stable nlp k) bs"
    using Cons.prems e by (auto simp: all_blocks_def)
  let ?st = "st\<lparr>validated_sections := validated_sections st @ [(k, bs)]\<rparr>"
  have step: "validate_section nlp st e = ?st"
    using validate_section_stable [OF k s] e by simp
  have "foldl (validate_section nlp) ?st d = ?st\<lparr>validated_sections := validated_sections ?st @ d\<rparr>"
    using Cons.prems e by (intro Cons.IH) (auto simp: all_blocks_def)
  then show ?case using step e by simp
qed

lemma validate_sections_fixed:
  "well_filed nlp d \<Longrightarrow> validate_sections nlp d = d"
  unfolding validate_sections_def validate_sections_run_def well_filed_def
  by (subst foldl_validate_section_stable) simp_all

text \<open>
  Claim C4. \<^verbatim>\<open>validate_sections\<close> is idempotent: applied to its own output it returns
  that output, with the same keys in the same order and the same blocks, so a second
  pass moves, drops and re-flags nothing. Blocks are values here: two entries of the input
  do not share one mutable block.
\<close>

theorem validate_sections_idempotent:
  "validate_sections nlp (validate_sections nlp s) = validate_sections nlp s"
  by (rule validate_sections_fixed) (rule validate_sections_well_filed)

lemma blocks_of_ensure_key [simp]: "blocks_of (ensure_key d k) S = blocks_of d S"
  by (simp add: blocks_of_def ensure_key_def)

lemma blocks_of_Nil: "blocks_of [] S = []"
  by (simp add: blocks_of_def)

lemma blocks_of_Cons: "blocks_of ((k, bs) # d) S = (if k = S then bs else []) @ blocks_of d S"
  by (simp add: blocks_of_def)

lemma append_to_Nil: "append_to [] k b = []"
  by (simp add: append_to_def)

lemma append_to_Cons:
  "append_to ((k', bs) # d) k b = (if k' = k then (k', bs @ [b]) else (k', bs)) # append_to d k b"
  by (simp add: append_to_def)

lemma blocks_of_append_to_mono: "x \<in> set (blocks_of d S) \<Longrightarrow> x \<in> set (blocks_of (append_to d k b) S)"
  by (induction d) (auto simp: blocks_of_Nil blocks_of_Cons append_to_Nil append_to_Cons)

lemma blocks_of_append_to_new:
  "k \<in> set (map fst d) \<Longrightarrow> b \<in> set (blocks_of (append_to d k b) k)"
  by (induction d) (force simp: blocks_of_Nil blocks_of_Cons append_to_Nil append_to_Cons)+

lemma key_ensure_key: "k \<in> set (map fst (ensure_key d k))"
  by (simp add: keys_ensure_key)

lemma keys_ensure_key_mono: "set (map fst d) \<subseteq> set (map fst (ensure_key d k))"
  by (auto simp: keys_ensure_key)

lemma extends_refl: "extends st st"
  by (simp add: extends_def)

lemma extends_trans: "extends a b \<Longrightarrow> extends b c \<Longrightarrow> extends a c"
  unfolding extends_def by blast

lemma extends_validate_block: "extends st (validate_block nlp S st b)"
proof (cases rule: validate_block_cases [where b = b and nlp = nlp and S = S])
  case blank
  then show ?thesis by (simp add: validate_block_blank extends_refl)
next
  case keep
  then show ?thesis
    by (auto simp: validate_block_keep extends_def intro: blocks_of_append_to_mono)
next
  case (move T)
  have "\<And>U x. x \<in> set (blocks_of (validated_sections st) U)
          \<Longrightarrow> x \<in> set (blocks_of (append_to (ensure_key (validated_sections st) T) T b) U)"
    using blocks_of_append_to_mono [of _ "ensure_key (validated_sections st) T"] by simp
  then show ?thesis
    using move keys_ensure_key_mono [of "validated_sections st" T]
    by (auto simp: validate_block_move(1) extends_def)
next
  case drop
  then show ?thesis by (auto simp: validate_block_drop extends_def)
next
  case flag
  then show ?thesis
    by (auto simp: validate_block_flag extends_def intro: blocks_of_append_to_mono)
qed

lemma extends_foldl_validate_block: "extends st (foldl (validate_block nlp S) st bs)"
proof (induction bs arbitrary: st)
  case Nil
  show ?case by (simp add: extends_refl)
next
  case (Cons b bs)
  show ?case using extends_trans [OF extends_validate_block Cons.IH] by simp
qed

lemma extends_ensure:
  "extends st (st\<lparr>validated_sections := ensure_key (validated_sections st) k\<rparr>)"
  using keys_ensure_key_mono [of "validated_sections st" k] by (auto simp: extends_def)

lemma extends_validate_section: "extends st (validate_section nlp st e)"
proof (cases e)
  case (Pair k bs)
  show ?thesis
    unfolding Pair validate_section_def
    using extends_trans [OF extends_ensure extends_foldl_validate_block] by simp
qed

lemma extends_foldl_validate_section: "extends st (foldl (validate_section nlp) st d)"
proof (induction d arbitrary: st)
  case Nil
  show ?case by (simp add: extends_refl)
next
  case (Cons e d)
  show ?case using extends_trans [OF extends_validate_section Cons.IH] by simp
qed

text \<open>
  The state right after the block \<open>b\<close> of section \<open>S\<close> has been handled, for every block of
  the input.
\<close>

lemma reaches_block:
  assumes "(S, bs) \<in> set s" "b \<in> set bs"
  shows "\<exists>st. S \<in> set (map fst (validated_sections st)) \<and>
              extends (validate_block nlp S st b) (validate_sections_run nlp s)"
proof -
  obtain pre post where s: "s = pre @ (S, bs) # post"
    using assms(1) by (meson split_list)
  obtain bpre bpost where bs: "bs = bpre @ b # bpost"
    using assms(2) by (meson split_list)
  define st0 where "st0 = foldl (validate_section nlp)
     \<lparr>validated_sections = [], moved_content = [], removed_content = []\<rparr> pre"
  define st1 where "st1 = st0\<lparr>validated_sections := ensure_key (validated_sections st0) S\<rparr>"
  define st2 where "st2 = foldl (validate_block nlp S) st1 bpre"
  have k1: "S \<in> set (map fst (validated_sections st1))"
    using key_ensure_key by (simp add: st1_def)
  have "extends st1 st2"
    unfolding st2_def by (rule extends_foldl_validate_block)
  then have k2: "S \<in> set (map fst (validated_sections st2))"
    using k1 unfolding extends_def by blast
  have sec: "validate_section nlp st0 (S, bs) =
      foldl (validate_block nlp S) (validate_block nlp S st2 b) bpost"
    by (simp add: validate_section_def bs st1_def st2_def)
  have run: "validate_sections_run nlp s =
      foldl (validate_section nlp) (validate_section nlp st0 (S, bs)) post"
    by (simp add: validate_sections_run_def s st0_def)
  have "extends (validate_block nlp S st2 b) (validate_section nlp st0 (S, bs))"
    unfolding sec by (rule extends_foldl_validate_block)
  then have "extends (validate_block nlp S st2 b) (validate_sections_run nlp s)"
    unfolding run using extends_foldl_validate_section extends_trans by blast
  then show ?thesis using k2 by blast
qed

lemma all_texts_ensure_key [simp]: "all_texts (ensure_key d k) = all_texts d"
  by (simp add: all_texts_def ensure_key_def)

lemma all_texts_append_to:
  "distinct (map fst d) \<Longrightarrow>
   mset (all_texts (append_to d k b)) \<subseteq># add_mset (block_text b) (mset (all_texts d))"
proof (induction d)
  case Nil
  then show ?case by (simp add: all_texts_def append_to_Nil)
next
  case (Cons e d)
  obtain k' bs where e: "e = (k', bs)" by (cases e)
  show ?case
  proof (cases "k' = k")
    case True
    then have "k \<notin> set (map fst d)" using Cons.prems e by auto
    then have "append_to d k b = d"
      by (induction d) (auto simp: append_to_Nil append_to_Cons)
    then show ?thesis using True e by (simp add: all_texts_def append_to_Cons)
  next
    case False
    have "mset (all_texts (append_to d k b)) \<subseteq># add_mset (block_text b) (mset (all_texts d))"
      using Cons by simp
    then have "mset (map block_text bs) + mset (all_texts (append_to d k b))
        \<subseteq># mset (map block_text bs) + add_mset (block_text b) (mset (all_texts d))"
      by (rule subset_mset.add_left_mono)
    then show ?thesis using False e by (simp add: all_texts_def append_to_Cons)
  qed
qed

text \<open>One block adds at most one filed text and at most one move, from its own section.\<close>

lemma validate_block_accounts:
  assumes "distinct (map fst (validated_sections st))"
  shows "mset (all_texts (validated_sections (validate_block nlp S st b)))
           \<subseteq># add_mset (block_text b) (mset (all_texts (validated_sections st)))"
    and "mset (map move_source (moved_content (validate_block nlp S st b)))
           \<subseteq># add_mset (S, take 60 (block_text b)) (mset (map move_source (moved_content st)))"
    and "list_all (\<lambda>m. move_to m \<noteq> move_from m) (moved_content st) \<Longrightarrow>
         list_all (\<lambda>m. move_to m \<noteq> move_from m) (moved_content (validate_block nlp S st b))"
proof -
  note d = all_texts_append_to [OF assms]
  have de: "\<And>T. distinct (map fst (ensure_key (validated_sections st) T))"
    using assms by (rule distinct_ensure_key)
  show "mset (all_texts (validated_sections (validate_block nlp S st b)))
           \<subseteq># add_mset (block_text b) (mset (all_texts (validated_sections st)))"
  proof (cases rule: validate_block_cases [where b = b and nlp = nlp and S = S])
    case blank then show ?thesis by (simp add: validate_block_blank)
  next
    case keep then show ?thesis using d by (simp add: validate_block_keep)
  next
    case (move T)
    then show ?thesis using all_texts_append_to [OF de, of T T b]
      by (simp add: validate_block_move(1))
  next
    case drop then show ?thesis by (simp add: validate_block_drop)
  next
    case flag
    then show ?thesis
      using d [of S "b\<lparr>validation_warning := Some (reason_in nlp (block_text b) S)\<rparr>"]
      by (simp add: validate_block_flag)
  qed
  show "mset (map move_source (moved_content (validate_block nlp S st b)))
           \<subseteq># add_mset (S, take 60 (block_text b)) (mset (map move_source (moved_content st)))"
  proof (cases rule: validate_block_cases [where b = b and nlp = nlp and S = S])
    case blank then show ?thesis by (simp add: validate_block_blank)
  next
    case keep then show ?thesis by (simp add: validate_block_keep)
  next
    case (move T) then show ?thesis by (simp add: validate_block_move(1) move_source_def)
  next
    case drop then show ?thesis by (simp add: validate_block_drop)
  next
    case flag then show ?thesis by (simp add: validate_block_flag)
  qed
  show "list_all (\<lambda>m. move_to m \<noteq> move_from m) (moved_content (validate_block nlp S st b))"
    if "list_all (\<lambda>m. move_to m \<noteq> move_from m) (moved_content st)"
  proof (cases rule: validate_block_cases [where b = b and nlp = nlp and S = S])
    case blank then show ?thesis using that by (simp add: validate_block_blank)
  next
    case keep then show ?thesis using that by (simp add: validate_block_keep)
  next
    case (move T) then show ?thesis using that validate_block_move(2) [OF move]
      by (simp add: validate_block_move(1))
  next
    case drop then show ?thesis using that by (simp add: validate_block_drop)
  next
    case flag then show ?thesis using that by (simp add: validate_block_flag)
  qed
qed

lemma distinct_validate_block:
  "distinct (map fst (validated_sections st)) \<Longrightarrow>
   distinct (map fst (validated_sections (validate_block nlp S st b)))"
proof (cases rule: validate_block_cases [where b = b and nlp = nlp and S = S])
  case (move T)
  assume "distinct (map fst (validated_sections st))"
  then show ?thesis using move by (simp add: validate_block_move(1) distinct_ensure_key)
qed (simp_all add: validate_block_blank validate_block_keep validate_block_drop validate_block_flag)

lemma accounted_validate_block:
  assumes "accounted st texts sources"
  shows "accounted (validate_block nlp S st b)
           (add_mset (block_text b) texts) (add_mset (S, take 60 (block_text b)) sources)"
proof -
  have d: "distinct (map fst (validated_sections st))" using assms by (simp add: accounted_def)
  have "mset (all_texts (validated_sections (validate_block nlp S st b)))
        \<subseteq># add_mset (block_text b) texts"
    using validate_block_accounts(1) [OF d, of nlp S b] assms
    by (meson accounted_def mset_subset_eq_add_mset_cancel subset_mset.order_trans)
  moreover have "mset (map move_source (moved_content (validate_block nlp S st b)))
        \<subseteq># add_mset (S, take 60 (block_text b)) sources"
    using validate_block_accounts(2) [OF d, of nlp S b] assms
    by (meson accounted_def mset_subset_eq_add_mset_cancel subset_mset.order_trans)
  ultimately show ?thesis
    using assms validate_block_accounts(3) [OF d] distinct_validate_block [OF d]
    by (simp add: accounted_def)
qed

lemma accounted_foldl_validate_block:
  "accounted st texts sources \<Longrightarrow>
   accounted (foldl (validate_block nlp S) st bs)
     (texts + mset (map block_text bs))
     (sources + mset (map (\<lambda>b. (S, take 60 (block_text b))) bs))"
proof (induction bs arbitrary: st texts sources)
  case Nil
  then show ?case by simp
next
  case (Cons b bs)
  show ?case
    using Cons.IH [OF accounted_validate_block [OF Cons.prems, of nlp S b]] by simp
qed

lemma accounted_validate_section:
  assumes "accounted st texts sources"
  shows "accounted (validate_section nlp st (S, bs))
     (texts + mset (map block_text bs))
     (sources + mset (map (\<lambda>b. (S, take 60 (block_text b))) bs))"
proof -
  have "accounted (st\<lparr>validated_sections := ensure_key (validated_sections st) S\<rparr>) texts sources"
    using assms by (simp add: accounted_def distinct_ensure_key)
  then show ?thesis
    unfolding validate_section_def prod.case by (rule accounted_foldl_validate_block)
qed

lemma accounted_foldl_validate_section:
  "accounted st texts sources \<Longrightarrow>
   accounted (foldl (validate_section nlp) st d)
     (texts + mset (all_texts d)) (sources + mset (occurrences d))"
proof (induction d arbitrary: st texts sources)
  case Nil
  then show ?case by (simp add: all_texts_def occurrences_def)
next
  case (Cons e d)
  obtain S bs where e: "e = (S, bs)" by (cases e)
  show ?case
    using Cons.IH [OF accounted_validate_section [OF Cons.prems, of nlp S bs]] e
    by (simp add: all_texts_def occurrences_def add.assoc)
qed

lemma accounted_run:
  "accounted (validate_sections_run nlp s) (mset (all_texts s)) (mset (occurrences s))"
proof -
  have "accounted \<lparr>validated_sections = [], moved_content = [], removed_content = []\<rparr> {#} {#}"
    by (simp add: accounted_def all_texts_def)
  from accounted_foldl_validate_section [OF this, of nlp s]
  show ?thesis by (simp add: validate_sections_run_def)
qed

text \<open>
  Claim C5. After \<^verbatim>\<open>validate_sections\<close> returns, every block of the result has
  validation confidence at least 0.3 against the section that holds it. Each block of the
  input accounts for at most one recorded move (the moves, by source section and text, are
  a sub-multiset of the input's blocks), every move leaves its section, and the texts filed
  in the result are a sub-multiset of the input's texts: no block is filed twice.
\<close>

theorem surviving_blocks_above_drop_threshold:
  "list_all (\<lambda>(S, bs). list_all (\<lambda>b. 3 / 10 \<le> confidence_in nlp (block_text b) S) bs)
     (validate_sections nlp s) \<and>
   mset (map move_source (moved_content (validate_sections_run nlp s))) \<subseteq># mset (occurrences s) \<and>
   list_all (\<lambda>m. move_to m \<noteq> move_from m) (moved_content (validate_sections_run nlp s)) \<and>
   distinct (map fst (validate_sections nlp s)) \<and>
   mset (all_texts (validate_sections nlp s)) \<subseteq># mset (all_texts s)"
proof -
  have "all_blocks (validate_sections nlp s) (stable nlp)"
    using validate_sections_well_filed [of nlp s] by (simp add: well_filed_def)
  then have "list_all (\<lambda>(S, bs). list_all (\<lambda>b. 3 / 10 \<le> confidence_in nlp (block_text b) S) bs)
     (validate_sections nlp s)"
    unfolding all_blocks_def list_all_iff using stable_conf by fast
  then show ?thesis
    using accounted_run [of nlp s] by (simp add: accounted_def validate_sections_def)
qed

lemma blocks_of_append_ensure_new: "b \<in> set (blocks_of (append_to (ensure_key d k) k b) k)"
  by (rule blocks_of_append_to_new) (rule key_ensure_key)

lemma best_scoring_iff:
  "best_scoring nlp t T \<and> 1 / 2 \<le> confidence_in nlp t T \<longleftrightarrow> find_correct_section nlp t = Some T"
  unfolding best_scoring_def list_all_iff find_correct_section_Some_iff by blast

lemma no_target_iff:
  "list_all (\<lambda>U. confidence_in nlp t U < 1 / 2) signature_keys \<longleftrightarrow> find_correct_section nlp t = None"
  unfolding list_all_iff find_correct_section_None_iff by blast

text \<open>
  Claim C2, amended. For every section \<open>S\<close> of the input and every non-blank block \<open>b\<close>
  in it, with \<open>c\<close> the block's confidence against \<open>S\<close>:
  \<^item> if \<open>c \<ge> 0.5\<close> the block is appended unchanged to \<open>S\<close>;
  \<^item> if \<open>c < 0.5\<close> (whether or not it reaches 0.4) and the best-scoring type \<open>T\<close>, the
    first in signature order with the highest confidence, scores at least 0.5, the block is
    appended unchanged to \<open>T\<close>, which differs from \<open>S\<close>, and the move is recorded;
  \<^item> if \<open>c < 0.5\<close>, no type scores 0.5 and \<open>c < 0.3\<close>, the block is dropped and the
    removal recorded;
  \<^item> if \<open>c < 0.5\<close>, no type scores 0.5 and \<open>c \<ge> 0.3\<close>, the block is appended to \<open>S\<close>
    with its validation warning set.
  Each case gives the effect of the loop body on any state and what the finished pass
  holds; the cases are exhaustive.
\<close>

theorem validate_sections_decision:
  assumes "(S, bs) \<in> set s" and "b \<in> set bs" and "strip (block_text b) \<noteq> []"
  shows "let t = block_text b;
             c = confidence_in nlp t S;
             run = validate_sections_run nlp s;
             out = validated_sections run;
             no_target = list_all (\<lambda>U. confidence_in nlp t U < 1 / 2) signature_keys
         in (1 / 2 \<le> c \<longrightarrow>
               (\<forall>st. validate_block nlp S st b =
                       st\<lparr>validated_sections := append_to (validated_sections st) S b\<rparr>) \<and>
               b \<in> set (blocks_of out S)) \<and>
            (c < 1 / 2 \<longrightarrow>
               (\<forall>T. best_scoring nlp t T \<and> 1 / 2 \<le> confidence_in nlp t T \<longrightarrow>
                  T \<noteq> S \<and>
                  (\<forall>st. validate_block nlp S st b =
                       st\<lparr>validated_sections :=
                            append_to (ensure_key (validated_sections st) T) T b,
                          moved_content := moved_content st @
                            [\<lparr>move_from = S, move_to = T, move_text = take 60 t\<rparr>]\<rparr>) \<and>
                  b \<in> set (blocks_of out T) \<and>
                  \<lparr>move_from = S, move_to = T, move_text = take 60 t\<rparr> \<in> set (moved_content run))) \<and>
            (c < 1 / 2 \<and> no_target \<and> c < 3 / 10 \<longrightarrow>
               (\<forall>st. validate_block nlp S st b =
                       st\<lparr>removed_content := removed_content st @
                            [\<lparr>removal_section = S, removal_text = take 60 t,
                              removal_confidence = c\<rparr>]\<rparr>) \<and>
               \<lparr>removal_section = S, removal_text = take 60 t, removal_confidence = c\<rparr>
                 \<in> set (removed_content run)) \<and>
            (c < 1 / 2 \<and> no_target \<and> 3 / 10 \<le> c \<longrightarrow>
               (\<forall>st. validate_block nlp S st b =
                       st\<lparr>validated_sections := append_to (validated_sections st) S
                            (b\<lparr>validation_warning := Some (reason_in nlp t S)\<rparr>)\<rparr>) \<and>
               b\<lparr>validation_warning := Some (reason_in nlp t S)\<rparr> \<in> set (blocks_of out S)) \<and>
            ((\<exists>T. best_scoring nlp t T \<and> 1 / 2 \<le> confidence_in nlp t T) \<or> no_target)"
proof -
  define t where "t = block_text b"
  define c where "c = confidence_in nlp t S"
  define run where "run = validate_sections_run nlp s"
  obtain st0 where key: "S \<in> set (map fst (validated_sections st0))"
    and ext: "extends (validate_block nlp S st0 b) run"
    using reaches_block [OF assms(1,2), of nlp] unfolding run_def by blast
  note nb = assms(3)
  have keep: "(\<forall>st. validate_block nlp S st b =
                       st\<lparr>validated_sections := append_to (validated_sections st) S b\<rparr>) \<and>
               b \<in> set (blocks_of (validated_sections run) S)" if "1 / 2 \<le> c"
  proof -
    have eq: "\<And>st. validate_block nlp S st b =
        st\<lparr>validated_sections := append_to (validated_sections st) S b\<rparr>"
      using that nb by (simp add: validate_block_keep c_def t_def)
    have "b \<in> set (blocks_of (validated_sections (validate_block nlp S st0 b)) S)"
      using key by (simp add: eq blocks_of_append_to_new)
    then show ?thesis using eq ext unfolding extends_def by blast
  qed
  have move: "T \<noteq> S \<and>
                  (\<forall>st. validate_block nlp S st b =
                       st\<lparr>validated_sections :=
                            append_to (ensure_key (validated_sections st) T) T b,
                          moved_content := moved_content st @
                            [\<lparr>move_from = S, move_to = T, move_text = take 60 t\<rparr>]\<rparr>) \<and>
                  b \<in> set (blocks_of (validated_sections run) T) \<and>
                  \<lparr>move_from = S, move_to = T, move_text = take 60 t\<rparr> \<in> set (moved_content run)"
    if "c < 1 / 2" "best_scoring nlp t T \<and> 1 / 2 \<le> confidence_in nlp t T" for T
  proof -
    have f: "find_correct_section nlp (block_text b) = Some T"
      using that(2) best_scoring_iff by (simp add: t_def)
    have lt: "confidence_in nlp (block_text b) S < 1 / 2"
      using that(1) by (simp add: c_def t_def)
    note m = validate_block_move [OF nb lt f]
    have "b \<in> set (blocks_of (validated_sections (validate_block nlp S st0 b)) T)"
      by (simp add: m(1) blocks_of_append_ensure_new)
    moreover have "\<lparr>move_from = S, move_to = T, move_text = take 60 t\<rparr>
        \<in> set (moved_content (validate_block nlp S st0 b))"
      by (simp add: m(1) t_def)
    ultimately show ?thesis using m ext unfolding extends_def t_def by blast
  qed
  have drop: "(\<forall>st. validate_block nlp S st b =
                       st\<lparr>removed_content := removed_content st @
                            [\<lparr>removal_section = S, removal_text = take 60 t,
                              removal_confidence = c\<rparr>]\<rparr>) \<and>
               \<lparr>removal_section = S, removal_text = take 60 t, removal_confidence = c\<rparr>
                 \<in> set (removed_content run)"
    if "c < 1 / 2" "list_all (\<lambda>U. confidence_in nlp t U < 1 / 2) signature_keys" "c < 3 / 10"
  proof -
    have f: "find_correct_section nlp (block_text b) = None"
      using that(2) no_target_iff by (simp add: t_def)
    have lt: "confidence_in nlp (block_text b) S < 3 / 10"
      using that(3) by (simp add: c_def t_def)
    note m = validate_block_drop [OF nb lt f]
    have "\<lparr>removal_section = S, removal_text = take 60 t, removal_confidence = c\<rparr>
        \<in> set (removed_content (validate_block nlp S st0 b))"
      by (simp add: m t_def c_def)
    then show ?thesis using m ext unfolding extends_def t_def c_def by blast
  qed
  have flag: "(\<forall>st. validate_block nlp S st b =
                       st\<lparr>validated_sections := append_to (validated_sections st) S
                            (b\<lparr>validation_warning := Some (reason_in nlp t S)\<rparr>)\<rparr>) \<and>
               b\<lparr>validation_warning := Some (reason_in nlp t S)\<rparr>
                 \<in> set (blocks_of (validated_sections run) S)"
    if "c < 1 / 2" "list_all (\<lambda>U. confidence_in nlp t U < 1 / 2) signature_keys" "3 / 10 \<le> c"
  proof -
    have f: "find_correct_section nlp (block_text b) = None"
      using that(2) no_target_iff by (simp add: t_def)
    have ge: "3 / 10 \<le> confidence_in nlp (block_text b) S"
      and lt: "confidence_in nlp (block_text b) S < 1 / 2"
      using that by (simp_all add: c_def t_def)
    note m = validate_block_flag [OF nb ge lt f]
    have "b\<lparr>validation_warning := Some (reason_in nlp t S)\<rparr>
        \<in> set (blocks_of (validated_sections (validate_block nlp S st0 b)) S)"
      using key by (simp add: m t_def blocks_of_append_to_new)
    then show ?thesis using m ext unfolding extends_def t_def by blast
  qed
  have total: "(\<exists>T. best_scoring nlp t T \<and> 1 / 2 \<le> confidence_in nlp t T) \<or>
      list_all (\<lambda>U. confidence_in nlp t U < 1 / 2) signature_keys"
    unfolding best_scoring_iff no_target_iff by (cases "find_correct_section nlp t") auto
  show ?thesis
    unfolding Let_def t_def [symmetric] c_def [symmetric] run_def [symmetric]
    using keep move drop flag total by blast
qed

subsection \<open>The validator on concrete blocks, without spaCy\<close>

lemma signature_keys_eval:
  "signature_keys = [''EMPLOYMENT'', ''EDUCATION'', ''SKILLS'', ''SUMMARY'', ''PROJECTS'', ''CERTIFICATIONS'']"
  by (simp add: signature_keys_def CONTENT_SIGNATURES_def)

lemma example_block_scores:
  "map (confidence_in None (block_text example_block)) signature_keys =
     [3 / 7, 2 / 3, 3 / 4, 0, 2 / 7, 0]"
  by code_simp

lemma role_scores:
  "map (confidence_in None ''role'') signature_keys = [2 / 7, - (1 / 3), 1 / 3, 0, 2 / 7, 0]"
  by code_simp

text \<open>
  Claim C2 as stated fails: this block scores 3/7, between 0.4 and 0.5, against
  EMPLOYMENT, and is not retained there with a warning but relocated, unflagged, to SKILLS.
\<close>

theorem relocation_in_warning_band_counterexample:
  "2 / 5 \<le> confidence_in None (block_text example_block) ''EMPLOYMENT'' \<and>
   confidence_in None (block_text example_block) ''EMPLOYMENT'' < 1 / 2 \<and>
   validate_sections None [(''EMPLOYMENT'', [example_block])] =
     [(''EMPLOYMENT'', []), (''SKILLS'', [example_block])]"
  by code_simp

lemma example_block_text_nonblank: "strip (block_text example_block) \<noteq> []"
  by code_simp

lemma role_nonblank: "strip ''role'' \<noteq> []"
  by code_simp

lemma example_scores:
  "confidence_in None (block_text example_block) ''EMPLOYMENT'' = 3 / 7"
  "confidence_in None (block_text example_block) ''EDUCATION'' = 2 / 3"
  "confidence_in None (block_text example_block) ''SKILLS'' = 3 / 4"
  "confidence_in None (block_text example_block) ''SUMMARY'' = 0"
  "confidence_in None (block_text example_block) ''PROJECTS'' = 2 / 7"
  "confidence_in None (block_text example_block) ''CERTIFICATIONS'' = 0"
  using example_block_scores by (simp_all add: signature_keys_eval)

lemma role_score_values:
  "confidence_in None ''role'' ''EMPLOYMENT'' = 2 / 7"
  "confidence_in None ''role'' ''EDUCATION'' = - (1 / 3)"
  "confidence_in None ''role'' ''SKILLS'' = 1 / 3"
  "confidence_in None ''role'' ''SUMMARY'' = 0"
  "confidence_in None ''role'' ''PROJECTS'' = 2 / 7"
  "confidence_in None ''role'' ''CERTIFICATIONS'' = 0"
  using role_scores by (simp_all add: signature_keys_eval)

text \<open>
  The four cases of the amended claim C2 at concrete inputs: a block kept in SKILLS, the
  same block moved from EMPLOYMENT to SKILLS, a block dropped from SUMMARY and the same
  block retained with a warning in SKILLS.
\<close>

theorem validate_sections_decision_witness:
  "(let s = [(''SKILLS'', [example_block])] in
      (''SKILLS'', [example_block]) \<in> set s \<and> example_block \<in> set [example_block] \<and>
      strip (block_text example_block) \<noteq> [] \<and>
      1 / 2 \<le> confidence_in None (block_text example_block) ''SKILLS'' \<and>
      example_block \<in> set (blocks_of (validate_sections None s) ''SKILLS'')) \<and>
   (let s = [(''EMPLOYMENT'', [example_block])] in
      confidence_in None (block_text example_block) ''EMPLOYMENT'' < 1 / 2 \<and>
      best_scoring None (block_text example_block) ''SKILLS'' \<and>
      example_block \<in> set (blocks_of (validate_sections None s) ''SKILLS'') \<and>
      \<lparr>move_from = ''EMPLOYMENT'', move_to = ''SKILLS'',
        move_text = take 60 (block_text example_block)\<rparr>
        \<in> set (moved_content (validate_sections_run None s))) \<and>
   (let b = \<lparr>block_text = ''role'', validation_warning = None\<rparr>; s = [(''SUMMARY'', [b])] in
      confidence_in None ''role'' ''SUMMARY'' < 3 / 10 \<and>
      list_all (\<lambda>U. confidence_in None ''role'' U < 1 / 2) signature_keys \<and>
      \<lparr>removal_section = ''SUMMARY'', removal_text = take 60 ''role'',
        removal_confidence = confidence_in None ''role'' ''SUMMARY''\<rparr>
        \<in> set (removed_content (validate_sections_run None s))) \<and>
   (let b = \<lparr>block_text = ''role'', validation_warning = None\<rparr>; s = [(''SKILLS'', [b])] in
      3 / 10 \<le> confidence_in None ''role'' ''SKILLS'' \<and>
      confidence_in None ''role'' ''SKILLS'' < 1 / 2 \<and>
      b\<lparr>validation_warning := Some (reason_in None ''role'' ''SKILLS'')\<rparr>
        \<in> set (blocks_of (validate_sections None s) ''SKILLS''))"
proof -
  note ex = example_scores
  note rl = role_score_values
  define b where "b = \<lparr>block_text = ''role'', validation_warning = None\<rparr>"
  have bt: "block_text b = ''role''" by (simp add: b_def)
  have nb: "strip (block_text b) \<noteq> []" using role_nonblank by (simp add: bt)
  have best: "best_scoring None (block_text example_block) ''SKILLS''"
    by (simp add: best_scoring_def signature_keys_eval ex)
  have none: "list_all (\<lambda>U. confidence_in None ''role'' U < 1 / 2) signature_keys"
    by (simp add: signature_keys_eval rl)
  have keep: "example_block \<in> set (blocks_of (validate_sections None [(''SKILLS'', [example_block])]) ''SKILLS'')"
    using validate_sections_decision [of "''SKILLS''" "[example_block]"
        "[(''SKILLS'', [example_block])]" example_block None] example_block_text_nonblank ex
    by (simp add: Let_def validate_sections_def)
  have move: "example_block \<in> set (blocks_of (validate_sections None [(''EMPLOYMENT'', [example_block])]) ''SKILLS'') \<and>
      \<lparr>move_from = ''EMPLOYMENT'', move_to = ''SKILLS'',
        move_text = take 60 (block_text example_block)\<rparr>
        \<in> set (moved_content (validate_sections_run None [(''EMPLOYMENT'', [example_block])]))"
    using validate_sections_decision [of "''EMPLOYMENT''" "[example_block]"
        "[(''EMPLOYMENT'', [example_block])]" example_block None] example_block_text_nonblank ex best
    by (simp add: Let_def validate_sections_def)
  have drop: "\<lparr>removal_section = ''SUMMARY'', removal_text = take 60 ''role'',
        removal_confidence = confidence_in None ''role'' ''SUMMARY''\<rparr>
        \<in> set (removed_content (validate_sections_run None [(''SUMMARY'', [b])]))"
    using validate_sections_decision [of "''SUMMARY''" "[b]" "[(''SUMMARY'', [b])]" b None]
      nb rl none
    by (simp add: Let_def bt)
  have flag: "b\<lparr>validation_warning := Some (reason_in None ''role'' ''SKILLS'')\<rparr>
        \<in> set (blocks_of (validate_sections None [(''SKILLS'', [b])]) ''SKILLS'')"
    using validate_sections_decision [of "''SKILLS''" "[b]" "[(''SKILLS'', [b])]" b None]
      nb rl none
    by (simp add: Let_def bt validate_sections_def)
  show ?thesis
    unfolding Let_def b_def [symmetric]
    using keep move drop flag best none example_block_text_nonblank ex rl by simp
qed

section \<open>Properties of the quality scores\<close>

lemma score_name_range: "0 \<le> score_name n \<and> score_name n \<le> 1"
  by (simp add: score_name_def Let_def)

lemma score_section_range: "0 \<le> score_section c \<and> score_section c \<le> 1"
  by (simp add: score_section_def Let_def)

lemma score_contact_range: "0 \<le> score_contact i \<and> score_contact i \<le> 1"
  by (simp add: score_contact_def Let_def)

lemma weighted_bounds:
  fixes a b c d e f :: real
  assumes "0 \<le> a \<and> a \<le> 1" "0 \<le> b \<and> b \<le> 1" "0 \<le> c \<and> c \<le> 1"
    "0 \<le> d \<and> d \<le> 1" "0 \<le> e \<and> e \<le> 1" "0 \<le> f \<and> f \<le> 1"
  shows "0 \<le> 0.25 * a + 0.15 * b + 0.25 * c + 0.20 * d + 0.10 * e + 0.05 * f"
    and "0.25 * a + 0.15 * b + 0.25 * c + 0.20 * d + 0.10 * e + 0.05 * f \<le> 1"
  using assms by (simp_all add: power2_eq_square)

text \<open>
  Claim C3. For every input of the post-processor, each per-field score (name, contact,
  employment, education, skills, summary) lies in [0,1], the overall score is the weighted
  sum of the six with the weights 0.25, 0.15, 0.25, 0.20, 0.10, 0.05, the weights sum to 1,
  and the overall score lies in [0,1]. The two results that do not come from the
  post-processor, the failure result of \<^verbatim>\<open>process_resume\<close> and the text-only result for a
  DOCX file, fix the overall score at 0 and at 0.5.
\<close>

theorem quality_overall_in_unit_interval:
  "(let q = calculate_quality_scores data in
      (0 \<le> name_score q \<and> name_score q \<le> 1) \<and>
      (0 \<le> contact_score q \<and> contact_score q \<le> 1) \<and>
      (0 \<le> employment_score q \<and> employment_score q \<le> 1) \<and>
      (0 \<le> education_score q \<and> education_score q \<le> 1) \<and>
      (0 \<le> skills_score q \<and> skills_score q \<le> 1) \<and>
      (0 \<le> summary_score q \<and> summary_score q \<le> 1) \<and>
      overall_score q = 0.25 * name_score q + 0.15 * contact_score q
                      + 0.25 * employment_score q + 0.20 * education_score q
                      + 0.10 * skills_score q + 0.05 * summary_score q \<and>
      (\<Sum>(key, weight) \<leftarrow> weights. weight) = 1 \<and>
      0 \<le> overall_score q \<and> overall_score q \<le> 1) \<and>
   dict_get (failure_result e) ''quality_scores'' = Some (PDict [(''overall'', PFloat 0)]) \<and>
   dict_get (text_only_result txt) ''quality_scores'' = Some (PDict [(''overall'', PFloat 0.5)])"
proof -
  define q where "q = calculate_quality_scores data"
  let ?i = "get_dict (candidate_info data)" and ?s = "get_dict (sections data)"
  have n: "name_score q = score_name (get_str ?i ''name'')"
    and c: "contact_score q = score_contact ?i"
    and e: "employment_score q = score_section (get_str ?s ''EMPLOYMENT'')"
    and d: "education_score q = score_section (get_str ?s ''EDUCATION'')"
    and k: "skills_score q = score_section (get_str ?s ''SKILLS'')"
    and u: "summary_score q = score_section (get_str ?s ''SUMMARY'')"
    by (simp_all add: q_def calculate_quality_scores_def Let_def)
  have o: "overall_score q = 0.25 * name_score q + 0.15 * contact_score q
                         + 0.25 * employment_score q + 0.20 * education_score q
                         + 0.10 * skills_score q + 0.05 * summary_score q"
    by (simp add: q_def calculate_quality_scores_def Let_def weights_def)
  have w: "(\<Sum>(key, weight) \<leftarrow> weights. weight) = 1"
    by (simp add: weights_def)
  note r = score_name_range [of "get_str ?i ''name''"] score_contact_range [of ?i]
    score_section_range [of "get_str ?s ''EMPLOYMENT''"]
    score_section_range [of "get_str ?s ''EDUCATION''"]
    score_section_range [of "get_str ?s ''SKILLS''"]
    score_section_range [of "get_str ?s ''SUMMARY''"]
  have lo: "0 \<le> overall_score q" and hi: "overall_score q \<le> 1"
    unfolding o n c e d k u by (rule weighted_bounds [OF r])+
  have "(0 \<le> name_score q \<and> name_score q \<le> 1) \<and>
      (0 \<le> contact_score q \<and> contact_score q \<le> 1) \<and>
      (0 \<le> employment_score q \<and> employment_score q \<le> 1) \<and>
      (0 \<le> education_score q \<and> education_score q \<le> 1) \<and>
      (0 \<le> skills_score q \<and> skills_score q \<le> 1) \<and>
      (0 \<le> summary_score q \<and> summary_score q \<le> 1) \<and>
      overall_score q = 0.25 * name_score q + 0.15 * contact_score q
                      + 0.25 * employment_score q + 0.20 * education_score q
                      + 0.10 * skills_score q + 0.05 * summary_score q \<and>
      (\<Sum>(key, weight) \<leftarrow> weights. weight) = 1 \<and>
      0 \<le> overall_score q \<and> overall_score q \<le> 1"
    using r o w lo hi unfolding n c e d k u by blast
  then have "let q = calculate_quality_scores data in
      (0 \<le> name_score q \<and> name_score q \<le> 1) \<and>
      (0 \<le> contact_score q \<and> contact_score q \<le> 1) \<and>
      (0 \<le> employment_score q \<and> employment_score q \<le> 1) \<and>
      (0 \<le> education_score q \<and> education_score q \<le> 1) \<and>
      (0 \<le> skills_score q \<and> skills_score q \<le> 1) \<and>
      (0 \<le> summary_score q \<and> summary_score q \<le> 1) \<and>
      overall_score q = 0.25 * name_score q + 0.15 * contact_score q
                      + 0.25 * employment_score q + 0.20 * education_score q
                      + 0.10 * skills_score q + 0.05 * summary_score q \<and>
      (\<Sum>(key, weight) \<leftarrow> weights. weight) = 1 \<and>
      0 \<le> overall_score q \<and> overall_score q \<le> 1"
    unfolding q_def Let_def .
  moreover have "dict_get (failure_result e) ''quality_scores'' =
      Some (PDict [(''overall'', PFloat 0)])"
    by (simp add: failure_result_def dict_get_def Let_def)
  moreover have "dict_get (text_only_result txt) ''quality_scores'' =
      Some (PDict [(''overall'', PFloat 0.5)])"
    by (simp add: text_only_result_def dict_get_def)
  ultimately show ?thesis by blast
qed

section \<open>Properties of the orchestrator\<close>

lemma and_then_Inl [simp]: "and_then (Inl e) f = Inl e"
  by (simp add: and_then_def)

lemma and_then_Inr [simp]: "and_then (Inr v) f = f v"
  by (simp add: and_then_def)

text \<open>
  Inside the \<^verbatim>\<open>try\<close> block every exception is contained: the block ends with \<open>e\<close> whenever
  one of the seven layers raises \<open>e\<close> after the earlier ones have returned.
\<close>

lemma stage_exception_ends_try:
  "(analyze_layout L img = Inl e \<longrightarrow> process_resume_try L verbose t img tmpl = Inl e) \<and>
   (\<forall>lay. analyze_layout L img = Inr lay \<and>
          when_verbose verbose (report_layout L lay) = Inr () \<and>
          perform_multipass_ocr L img lay = Inl e \<longrightarrow>
          process_resume_try L verbose t img tmpl = Inl e) \<and>
   (\<forall>lay ocr. analyze_layout L img = Inr lay \<and>
          when_verbose verbose (report_layout L lay) = Inr () \<and>
          perform_multipass_ocr L img lay = Inr ocr \<and>
          when_verbose verbose (report_ocr L ocr) = Inr () \<and>
          identify_sections L ocr = Inl e \<longrightarrow>
          process_resume_try L verbose t img tmpl = Inl e) \<and>
   (\<forall>lay ocr sec. analyze_layout L img = Inr lay \<and>
          when_verbose verbose (report_layout L lay) = Inr () \<and>
          perform_multipass_ocr L img lay = Inr ocr \<and>
          when_verbose verbose (report_ocr L ocr) = Inr () \<and>
          identify_sections L ocr = Inr sec \<and>
          when_verbose verbose (report_sections L sec) = Inr () \<and>
          layer_validate_sections L sec = Inl e \<longrightarrow>
          process_resume_try L verbose t img tmpl = Inl e) \<and>
   (\<forall>lay ocr sec val. analyze_layout L img = Inr lay \<and>
          when_verbose verbose (report_layout L lay) = Inr () \<and>
          perform_multipass_ocr L img lay = Inr ocr \<and>
          when_verbose verbose (report_ocr L ocr) = Inr () \<and>
          identify_sections L ocr = Inr sec \<and>
          when_verbose verbose (report_sections L sec) = Inr () \<and>
          layer_validate_sections L sec = Inr val \<and>
          extract_header_info L ocr lay = Inl e \<longrightarrow>
          process_resume_try L verbose t img tmpl = Inl e) \<and>
   (\<forall>lay ocr sec val hdr. analyze_layout L img = Inr lay \<and>
          when_verbose verbose (report_layout L lay) = Inr () \<and>
          perform_multipass_ocr L img lay = Inr ocr \<and>
          when_verbose verbose (report_ocr L ocr) = Inr () \<and>
          identify_sections L ocr = Inr sec \<and>
          when_verbose verbose (report_sections L sec) = Inr () \<and>
          layer_validate_sections L sec = Inr val \<and>
          extract_header_info L ocr lay = Inr hdr \<and>
          map_to_template L hdr val tmpl = Inl e \<longrightarrow>
          process_resume_try L verbose t img tmpl = Inl e) \<and>
   (\<forall>lay ocr sec val hdr mapped. analyze_layout L img = Inr lay \<and>
          when_verbose verbose (report_layout L lay) = Inr () \<and>
          perform_multipass_ocr L img lay = Inr ocr \<and>
          when_verbose verbose (report_ocr L ocr) = Inr () \<and>
          identify_sections L ocr = Inr sec \<and>
          when_verbose verbose (report_sections L sec) = Inr () \<and>
          layer_validate_sections L sec = Inr val \<and>
          extract_header_info L ocr lay = Inr hdr \<and>
          map_to_template L hdr val tmpl = Inr mapped \<and>
          process_final_output L mapped = Inl e \<longrightarrow>
          process_resume_try L verbose t img tmpl = Inl e)"
  by (simp add: process_resume_try_def)

text \<open>
  When the banner and the handler's message are printed without failure, and always when
  \<open>verbose\<close> is false, an exception of the \<^verbatim>\<open>try\<close> block becomes the failure result.
\<close>

lemma process_resume_failure_result:
  assumes "when_verbose verbose (report_start L img) = Inr ()"
    and "process_resume_try L verbose t img tmpl = Inl e"
    and "when_verbose verbose (report_error L (''Error processing resume: '' @ str_of_exn e)) = Inr ()"
  shows "process_resume L verbose t img tmpl = Inr (failure_result e)"
  using assms by (simp add: process_resume_def Let_def)

lemma process_resume_quiet:
  "process_resume L False t img tmpl =
     Inr (case process_resume_try L False t img tmpl of
            Inr final_output \<Rightarrow> final_output | Inl e \<Rightarrow> failure_result e)"
  by (simp add: process_resume_def when_verbose_def Let_def split: sum.splits)

text \<open>
  Claim C1 at a run in verbose mode, the default, on a standard output that cannot encode
  U+274C: the layout analysis raises, the handler catches the exception, and the handler's
  own message raises \<^verbatim>\<open>UnicodeEncodeError\<close>, which leaves \<^verbatim>\<open>process_resume\<close>; no result
  is returned. The same layers with \<open>verbose\<close> false return the failure result.
\<close>

theorem handler_message_escapes:
  "process_resume_try unencodable_console_layers True 0 () None =
     Inl (Exn ''list index out of range'') \<and>
   process_resume unencodable_console_layers True 0 () None = Inl encode_error \<and>
   process_resume unencodable_console_layers False 0 () None =
     Inr (failure_result (Exn ''list index out of range''))"
  by (simp add: process_resume_def process_resume_try_def unencodable_console_layers_def
      when_verbose_def Let_def)

text \<open>
  Claim C8 at a DOCX file with no images and no text: the result has success false and a
  non-empty list of warnings, but no \<^verbatim>\<open>'sections'\<close> entry at all, unlike the failure
  result of \<^verbatim>\<open>process_resume\<close>.
\<close>

theorem empty_docx_result_lacks_sections:
  "process_docx_resume L paste verbose t empty_docx tmpl = Inr empty_docx_result \<and>
   extract_images_from_docx empty_docx = [] \<and>
   extract_text_from_docx empty_docx = [] \<and>
   dict_get empty_docx_result ''success'' = Some (PBool False) \<and>
   dict_get empty_docx_result ''sections'' = None \<and>
   dict_get empty_docx_result ''warnings'' = Some (PList [PStr ''DOCX appears to be empty''])"
  by (simp add: process_docx_resume_def docx_to_ocr_image_def extract_images_from_docx_def
      extract_text_from_docx_def empty_docx_def empty_docx_result_def dict_get_def Let_def)

text \<open>
  Claim C10. For every DOCX file from which no image is extracted and whose paragraph text
  is not empty, \<^verbatim>\<open>process_docx_resume\<close> returns, whatever the seven layers are (they are
  not called), success true, sections with the single key RAW_TEXT, which is none of the
  eight canonical section types, the candidate name Unknown, quality_scores.overall 0.5
  and one warning.
\<close>

theorem docx_text_fallback:
  assumes "extract_images_from_docx d = []" and "extract_text_from_docx d \<noteq> []"
  shows "process_docx_resume L paste verbose t d tmpl =
           Inr (text_only_result (extract_text_from_docx d)) \<and>
         dict_get (text_only_result (extract_text_from_docx d)) ''success'' = Some (PBool True) \<and>
         dict_get (text_only_result (extract_text_from_docx d)) ''sections'' =
           Some (PDict [(''RAW_TEXT'', PStr (extract_text_from_docx d))]) \<and>
         ''RAW_TEXT'' \<notin> set (map fst SECTION_MAPPINGS) \<and>
         dict_get (text_only_result (extract_text_from_docx d)) ''candidate_info'' =
           Some (PDict [(''name'', PStr ''Unknown'')]) \<and>
         dict_get (text_only_result (extract_text_from_docx d)) ''quality_scores'' =
           Some (PDict [(''overall'', PFloat 0.5)]) \<and>
         dict_get (text_only_result (extract_text_from_docx d)) ''warnings'' =
           Some (PList [PStr ''No images found in DOCX, extracted text only''])"
proof -
  have "process_docx_resume L paste verbose t d tmpl =
           Inr (text_only_result (extract_text_from_docx d))"
    using assms by (simp add: process_docx_resume_def docx_to_ocr_image_def Let_def)
  moreover have "''RAW_TEXT'' \<notin> set (map fst SECTION_MAPPINGS)"
    by (simp add: SECTION_MAPPINGS_def)
  ultimately show ?thesis
    by (simp add: text_only_result_def dict_get_def)
qed

lemma text_docx_text: "extract_text_from_docx text_docx = ''John Doe'' @ [CHR 0x0A] @ ''Engineer''"
  by code_simp

text \<open>Claim C10 at a DOCX file with two non-blank paragraphs and no images.\<close>

theorem docx_text_fallback_witness:
  "extract_images_from_docx text_docx = [] \<and> extract_text_from_docx text_docx \<noteq> [] \<and>
   process_docx_resume failing_layers (\<lambda>_. Inr ()) False 0 text_docx None =
     Inr (text_only_result (''John Doe'' @ [CHR 0x0A] @ ''Engineer'')) \<and>
   dict_get (text_only_result (''John Doe'' @ [CHR 0x0A] @ ''Engineer'')) ''sections'' =
     Some (PDict [(''RAW_TEXT'', PStr (''John Doe'' @ [CHR 0x0A] @ ''Engineer''))])"
proof -
  have i: "extract_images_from_docx text_docx = []"
    by (simp add: extract_images_from_docx_def text_docx_def)
  have x: "extract_text_from_docx text_docx \<noteq> []"
    by (simp add: text_docx_text)
  show ?thesis
    using i x docx_text_fallback [OF i x, of failing_layers "\<lambda>_. Inr ()" False 0 None]
    by (simp add: text_docx_text)
qed

end
